theory Spec2Isabelle
  imports Main "HOL-Library.Log_Nat"
begin

section \<open>Failures of the C++ code as values\<close>

text \<open>
  The stripifier is C++ without exceptions.  Where the source would read outside a vector or
  array, dereference a null pointer, stop on an \<^verbatim>\<open>assert\<close> or convert a
  \<^verbatim>\<open>float\<close> that does not fit the integer type, the model returns \<open>Inl\<close> with
  the kind of failure.  \<open>OutOfFuel\<close> is the value of a loop of the model that did not
  finish within its bound.
\<close>

datatype error = OutOfBounds | NullDeref | AssertFailed | Overflow | OutOfFuel

definition bindE :: "error + 'a \<Rightarrow> ('a \<Rightarrow> error + 'b) \<Rightarrow> error + 'b" where
  "bindE m f = (case m of Inl e \<Rightarrow> Inl e | Inr x \<Rightarrow> f x)"

section \<open>VertexCache.h\<close>

text \<open>
  \<^verbatim>\<open>class VertexCache { int *entries; size_t numEntries; }\<close>: the array is the list
  \<open>entries\<close>, and \<open>numEntries\<close> is its length.
\<close>

record VertexCache =
  entries :: "int list"

definition numEntries :: "VertexCache \<Rightarrow> nat" where
  "numEntries vc = length (entries vc)"

text \<open>The constructor \<^verbatim>\<open>VertexCache(size_t size)\<close> writes \<open>-1\<close> into every slot.\<close>

definition VertexCache_new :: "nat \<Rightarrow> VertexCache" where
  "VertexCache_new sz = \<lparr>entries = replicate sz (- 1)\<rparr>"

text \<open>\<^verbatim>\<open>InCache\<close>: the linear search, slot by slot from slot 0.\<close>

fun InCache_from :: "int list \<Rightarrow> int \<Rightarrow> bool" where
  "InCache_from [] entry = False"
| "InCache_from (e # es) entry = (if e = entry then True else InCache_from es entry)"

definition InCache :: "VertexCache \<Rightarrow> int \<Rightarrow> bool" where
  "InCache vc entry = InCache_from (entries vc) entry"

text \<open>
  \<^verbatim>\<open>AddEntry\<close>: \<^verbatim>\<open>for (i = numEntries - 2; i >= 0; i--) entries[i + 1] = entries[i];\<close>
  The argument of \<open>push_right\<close> is \<open>i + 1\<close>, so it starts at \<open>numEntries - 1\<close>.
  With no slot at all the read of \<^verbatim>\<open>entries[numEntries - 1]\<close> and the write of
  \<^verbatim>\<open>entries[0]\<close> are outside the array.
\<close>

fun push_right :: "nat \<Rightarrow> int list \<Rightarrow> int list" where
  "push_right 0 es = es"
| "push_right (Suc i) es = push_right i (es[Suc i := es ! i])"

definition AddEntry :: "VertexCache \<Rightarrow> int \<Rightarrow> error + (int \<times> VertexCache)" where
  "AddEntry vc entry =
     (if numEntries vc = 0 then Inl OutOfBounds
      else let removed = entries vc ! (numEntries vc - 1);
               es = push_right (numEntries vc - 1) (entries vc)
           in Inr (removed, vc\<lparr>entries := es[0 := entry]\<rparr>))"

text \<open>\<^verbatim>\<open>Clear\<close>: \<^verbatim>\<open>memset(entries, -1, ...)\<close> sets every byte to 0xFF, so every slot reads \<open>-1\<close>.\<close>

definition Clear :: "VertexCache \<Rightarrow> VertexCache" where
  "Clear vc = vc\<lparr>entries := replicate (numEntries vc) (- 1)\<rparr>"

definition At :: "VertexCache \<Rightarrow> nat \<Rightarrow> error + int" where
  "At vc index = (if index < numEntries vc then Inr (entries vc ! index) else Inl AssertFailed)"

section \<open>Faces and the cache updates of NvTriStripObjects.cpp\<close>

record NvFaceInfo =
  m_v0 :: int
  m_v1 :: int
  m_v2 :: int
  m_stripId :: int
  m_testStripId :: int
  m_experimentId :: int

definition NvFaceInfo_new :: "int \<Rightarrow> int \<Rightarrow> int \<Rightarrow> NvFaceInfo" where
  "NvFaceInfo_new v0 v1 v2 =
     \<lparr>m_v0 = v0, m_v1 = v1, m_v2 = v2, m_stripId = - 1, m_testStripId = - 1, m_experimentId = - 1\<rparr>"

text \<open>\<^verbatim>\<open>if (!vcache->InCache(v)) vcache->AddEntry(v);\<close>\<close>

definition AddIfAbsent :: "VertexCache \<Rightarrow> int \<Rightarrow> error + VertexCache" where
  "AddIfAbsent vc v =
     (if \<not> InCache vc v then bindE (AddEntry vc v) (\<lambda>(removed, vc'). Inr vc') else Inr vc)"

definition UpdateCacheFace :: "VertexCache \<Rightarrow> NvFaceInfo \<Rightarrow> error + VertexCache" where
  "UpdateCacheFace vc face =
     bindE (AddIfAbsent vc (m_v0 face)) (\<lambda>vc1.
     bindE (AddIfAbsent vc1 (m_v1 face)) (\<lambda>vc2.
     AddIfAbsent vc2 (m_v2 face)))"

text \<open>\<^verbatim>\<open>UpdateCacheStrip\<close> does the same for every face of the strip, in order.\<close>

fun UpdateCacheStrip :: "VertexCache \<Rightarrow> NvFaceInfo list \<Rightarrow> error + VertexCache" where
  "UpdateCacheStrip vc [] = Inr vc"
| "UpdateCacheStrip vc (f # fs) = bindE (UpdateCacheFace vc f) (\<lambda>vc'. UpdateCacheStrip vc' fs)"

definition CalcNumHitsFace :: "VertexCache \<Rightarrow> NvFaceInfo \<Rightarrow> int" where
  "CalcNumHitsFace vc face =
     (if InCache vc (m_v0 face) then 1 else 0) +
     (if InCache vc (m_v1 face) then 1 else 0) +
     (if InCache vc (m_v2 face) then 1 else 0)"

section \<open>Faces as the emitter reads them\<close>

text \<open>The two overloads of \<^verbatim>\<open>NvStripifier::IsDegenerate\<close>: on a face, and on three indices.\<close>

definition IsDegenerate :: "NvFaceInfo \<Rightarrow> bool" where
  "IsDegenerate face =
     (if m_v0 face = m_v1 face then True
      else if m_v0 face = m_v2 face then True
      else if m_v1 face = m_v2 face then True
      else False)"

definition IsDegenerate3 :: "nat \<Rightarrow> nat \<Rightarrow> nat \<Rightarrow> bool" where
  "IsDegenerate3 v0 v1 v2 =
     (if v0 = v1 then True else if v0 = v2 then True else if v1 = v2 then True else False)"

definition GetUniqueVertexInB :: "NvFaceInfo \<Rightarrow> NvFaceInfo \<Rightarrow> int" where
  "GetUniqueVertexInB faceA faceB =
     (let facev0 = m_v0 faceB; facev1 = m_v1 faceB; facev2 = m_v2 faceB in
      if facev0 \<noteq> m_v0 faceA \<and> facev0 \<noteq> m_v1 faceA \<and> facev0 \<noteq> m_v2 faceA then facev0
      else if facev1 \<noteq> m_v0 faceA \<and> facev1 \<noteq> m_v1 faceA \<and> facev1 \<noteq> m_v2 faceA then facev1
      else if facev2 \<noteq> m_v0 faceA \<and> facev2 \<noteq> m_v1 faceA \<and> facev2 \<noteq> m_v2 faceA then facev2
      else - 1)"

text \<open>
  \<^verbatim>\<open>GetSharedVertices\<close> writes through two out-pointers; the model returns the pair
  \<open>(vertex0, vertex1)\<close>.  The source returns early once \<open>vertex1\<close> is written.
\<close>

definition GetSharedVertices :: "NvFaceInfo \<Rightarrow> NvFaceInfo \<Rightarrow> int \<times> int" where
  "GetSharedVertices faceA faceB =
     (let inA = (\<lambda>v. v = m_v0 faceA \<or> v = m_v1 faceA \<or> v = m_v2 faceA);
          facev0 = m_v0 faceB; facev1 = m_v1 faceB; facev2 = m_v2 faceB;
          vertex0 = (if inA facev0 then facev0 else - 1)
      in if inA facev1 \<and> vertex0 \<noteq> - 1 then (vertex0, facev1)
         else let vertex0' = (if inA facev1 then facev1 else vertex0)
              in if inA facev2 \<and> vertex0' \<noteq> - 1 then (vertex0', facev2)
                 else if inA facev2 then (facev2, - 1)
                 else (vertex0', - 1))"

definition NextIsCW :: "int \<Rightarrow> bool" where
  "NextIsCW numIndices = (numIndices mod 2 = 0)"

definition IsCW :: "NvFaceInfo \<Rightarrow> int \<Rightarrow> int \<Rightarrow> bool" where
  "IsCW faceInfo v0 v1 =
     (if m_v0 faceInfo = v0 then m_v1 faceInfo = v1
      else if m_v1 faceInfo = v0 then m_v2 faceInfo = v1
      else m_v0 faceInfo = v1)"

section \<open>CreateStrips\<close>

text \<open>
  An \<^verbatim>\<open>assert\<close> stops the program only in a build that keeps assertions (the
  parameter \<open>dbg\<close>); the project's default build type is Release, where the condition is
  not looked at and the code after it runs.
\<close>

definition assert :: "bool \<Rightarrow> bool \<Rightarrow> error + unit" where
  "assert dbg c = (if dbg \<and> \<not> c then Inl AssertFailed else Inr ())"

text \<open>
  \<^verbatim>\<open>CreateStrips\<close> reads only the three vertices of the faces of each strip, so a strip
  is passed as the list of its faces (\<^verbatim>\<open>strip->m_faces\<close>, each pointer followed).

  \<open>CreateStrips_firstFace\<close> is the block that computes \<^verbatim>\<open>tFirstFace\<close>: the first face
  with its vertices reordered.
\<close>

definition CreateStrips_firstFace :: "NvFaceInfo list \<Rightarrow> NvFaceInfo" where
  "CreateStrips_firstFace fs =
     (let nStripFaceCount = length fs;
          t0 = NvFaceInfo_new (m_v0 (fs ! 0)) (m_v1 (fs ! 0)) (m_v2 (fs ! 0))
      in if 1 < nStripFaceCount then
           let nUnique = GetUniqueVertexInB (fs ! 1) t0;
               t1 = (if nUnique = m_v1 t0 then t0\<lparr>m_v0 := m_v1 t0, m_v1 := m_v0 t0\<rparr>
                     else if nUnique = m_v2 t0 then t0\<lparr>m_v0 := m_v2 t0, m_v2 := m_v0 t0\<rparr>
                     else t0)
           in if 2 < nStripFaceCount then
                if IsDegenerate (fs ! 1) then
                  let pivot = m_v1 (fs ! 1)
                  in if m_v1 t1 = pivot then t1\<lparr>m_v1 := m_v2 t1, m_v2 := m_v1 t1\<rparr> else t1
                else
                  let (nShared0, nShared1) = GetSharedVertices (fs ! 2) t1
                  in if nShared0 = m_v1 t1 \<and> nShared1 = - 1
                     then t1\<lparr>m_v1 := m_v2 t1, m_v2 := m_v1 t1\<rparr> else t1
              else t1
         else t0)"

text \<open>The loop \<^verbatim>\<open>for (j = 1; j < nStripFaceCount; j++)\<close> over the faces after the first.\<close>

fun CreateStrips_rest :: "NvFaceInfo list \<Rightarrow> int list \<Rightarrow> NvFaceInfo \<Rightarrow> int list \<times> NvFaceInfo" where
  "CreateStrips_rest [] stripIndices tLastFace = (stripIndices, tLastFace)"
| "CreateStrips_rest (f # fs) stripIndices tLastFace =
     (let nUnique = GetUniqueVertexInB tLastFace f
      in if nUnique \<noteq> - 1 then
           CreateStrips_rest fs (stripIndices @ [nUnique])
             (tLastFace\<lparr>m_v0 := m_v1 tLastFace, m_v1 := m_v2 tLastFace, m_v2 := nUnique\<rparr>)
         else
           CreateStrips_rest fs (stripIndices @ [m_v2 f])
             (tLastFace\<lparr>m_v0 := m_v0 f, m_v1 := m_v1 f, m_v2 := m_v2 f\<rparr>))"

text \<open>
  The state of the loop over the strips: \<^verbatim>\<open>stripIndices\<close>, \<^verbatim>\<open>accountForNegatives\<close>,
  \<^verbatim>\<open>numSeparateStrips\<close> and \<^verbatim>\<open>tLastFace\<close>.  \<open>CreateStrips_strip\<close> is the body for
  strip \<open>i\<close>.  With no face in the strip, \<^verbatim>\<open>strip->m_faces[0]\<close> is outside the vector.
\<close>

type_synonym emit_state = "int list \<times> int \<times> nat \<times> NvFaceInfo"

definition CreateStrips_strip ::
  "bool \<Rightarrow> bool \<Rightarrow> nat \<Rightarrow> nat \<Rightarrow> NvFaceInfo list \<Rightarrow> emit_state \<Rightarrow> error + emit_state" where
  "CreateStrips_strip dbg bStitchStrips nStripCount i fs st =
     (case st of (stripIndices, accountForNegatives, numSeparateStrips, tLastFace0) \<Rightarrow>
      if fs = [] then Inl (if dbg then AssertFailed else OutOfBounds)
      else
        let tFirstFace = CreateStrips_firstFace fs;
            cw = IsCW (fs ! 0) (m_v0 tFirstFace) (m_v1 tFirstFace);
            s1 = (if i = 0 \<or> \<not> bStitchStrips then
                    (if \<not> cw then stripIndices @ [m_v0 tFirstFace] else stripIndices)
                  else
                    let sd = stripIndices @ [m_v0 tFirstFace]
                    in if NextIsCW (int (length sd) - accountForNegatives) \<noteq> cw
                       then sd @ [m_v0 tFirstFace] else sd);
            s2 = s1 @ [m_v0 tFirstFace, m_v1 tFirstFace, m_v2 tFirstFace];
            (s3, tLastFace) = CreateStrips_rest (tl fs) s2 tFirstFace;
            tNext = tLastFace\<lparr>m_v0 := m_v1 tLastFace, m_v1 := m_v2 tLastFace\<rparr>
        in if bStitchStrips then
             Inr ((if Suc i \<noteq> nStripCount then s3 @ [m_v2 tLastFace] else s3),
                  accountForNegatives, numSeparateStrips, tNext)
           else
             Inr (s3 @ [- 1], accountForNegatives + 1, numSeparateStrips + 1, tNext))"

fun CreateStrips_loop ::
  "bool \<Rightarrow> bool \<Rightarrow> nat \<Rightarrow> nat \<Rightarrow> NvFaceInfo list list \<Rightarrow> emit_state \<Rightarrow> error + emit_state" where
  "CreateStrips_loop dbg bStitchStrips nStripCount i [] st = Inr st"
| "CreateStrips_loop dbg bStitchStrips nStripCount i (fs # rest) st =
     bindE (CreateStrips_strip dbg bStitchStrips nStripCount i fs st)
       (CreateStrips_loop dbg bStitchStrips nStripCount (Suc i) rest)"

text \<open>
  \<^verbatim>\<open>CreateStrips(allStrips, stripIndices, bStitchStrips, numSeparateStrips)\<close>: the last
  two arguments of the model are the values of the in-out parameters \<^verbatim>\<open>stripIndices\<close>
  and \<^verbatim>\<open>numSeparateStrips\<close> at the call; the result is their values at the return.
\<close>

definition CreateStrips ::
  "bool \<Rightarrow> NvFaceInfo list list \<Rightarrow> bool \<Rightarrow> int list \<Rightarrow> nat \<Rightarrow> error + (int list \<times> nat)" where
  "CreateStrips dbg allStrips bStitchStrips stripIndices numSeparateStrips =
     bindE (assert dbg (numSeparateStrips = 0)) (\<lambda>_.
     bindE (assert dbg (0 < length allStrips)) (\<lambda>_.
     bindE (CreateStrips_loop dbg bStitchStrips (length allStrips) 0 allStrips
              (stripIndices, 0, numSeparateStrips, NvFaceInfo_new 0 0 0))
       (\<lambda>(stripIndices', accountForNegatives, numSeparateStrips', tLastFace).
          Inr (stripIndices', if bStitchStrips then 1 else numSeparateStrips'))))"

section \<open>NvTriStrip.cpp: primitive groups and RemapIndices\<close>

text \<open>
  Modelled from the spec: the declarations of \<^verbatim>\<open>PrimType\<close> and
  \<^verbatim>\<open>PrimitiveGroup\<close> are in NvTriStrip.h, which is not among the sources.  The spec
  gives a group a kind, strip or list, and an ordered sequence of vertex indices; the code
  under \<^verbatim>\<open>src/\<close> uses the members \<^verbatim>\<open>type\<close>, \<^verbatim>\<open>numIndices\<close> and
  \<^verbatim>\<open>indices\<close> (an array of \<^verbatim>\<open>size_t\<close>).  The model keeps the array as a list and
  \<open>numIndices\<close> as its length.
\<close>

datatype PrimType = PT_LIST | PT_STRIP

record PrimitiveGroup =
  ptype :: PrimType
  indices :: "nat list"

definition numIndices :: "PrimitiveGroup \<Rightarrow> nat" where
  "numIndices g = length (indices g)"

text \<open>\<^verbatim>\<open>std::numeric_limits<size_t>::max()\<close> on a 64-bit target.\<close>

definition SIZE_MAX :: nat where
  "SIZE_MAX = 2 ^ 64 - 1"

text \<open>
  The inner loop of \<^verbatim>\<open>RemapIndices\<close> over the indices of one group.  The state is
  \<^verbatim>\<open>indexCache\<close> and \<^verbatim>\<open>indexCtr\<close>; the result holds the remapped indices of the
  group.  \<^verbatim>\<open>indexCache[...]\<close> with an index that is not below \<^verbatim>\<open>numVerts\<close> reads
  outside the vector.
\<close>

fun RemapIndices_group ::
  "nat list \<Rightarrow> nat list \<Rightarrow> nat \<Rightarrow> error + (nat list \<times> nat list \<times> nat)" where
  "RemapIndices_group [] indexCache indexCtr = Inr ([], indexCache, indexCtr)"
| "RemapIndices_group (x # xs) indexCache indexCtr =
     (if length indexCache \<le> x then Inl OutOfBounds
      else
        let cachedIndex = indexCache ! x
        in if cachedIndex = SIZE_MAX then
             bindE (RemapIndices_group xs (indexCache[x := indexCtr]) (indexCtr + 1))
               (\<lambda>(out, indexCache', indexCtr'). Inr (indexCtr # out, indexCache', indexCtr'))
           else
             bindE (RemapIndices_group xs indexCache indexCtr)
               (\<lambda>(out, indexCache', indexCtr'). Inr (cachedIndex # out, indexCache', indexCtr')))"

text \<open>The outer loop over the groups.\<close>

fun RemapIndices_groups ::
  "PrimitiveGroup list \<Rightarrow> nat list \<Rightarrow> nat \<Rightarrow> error + PrimitiveGroup list" where
  "RemapIndices_groups [] indexCache indexCtr = Inr []"
| "RemapIndices_groups (g # gs) indexCache indexCtr =
     bindE (RemapIndices_group (indices g) indexCache indexCtr)
       (\<lambda>(out, indexCache', indexCtr').
          bindE (RemapIndices_groups gs indexCache' indexCtr')
            (\<lambda>remapped. Inr (\<lparr>ptype = ptype g, indices = out\<rparr> # remapped)))"

definition RemapIndices :: "PrimitiveGroup list \<Rightarrow> nat \<Rightarrow> error + PrimitiveGroup list" where
  "RemapIndices in_primGroups numVerts =
     RemapIndices_groups in_primGroups (replicate numVerts SIZE_MAX) 0"

text \<open>
  First-touch order, in the words of the spec: \<open>first_touch\<close> lists the distinct indices in
  the order in which a scan of the streams meets them, and \<open>touch_rank\<close> is the place of
  an index in that list, counted from 0.
\<close>

fun first_touch_from :: "nat list \<Rightarrow> nat list \<Rightarrow> nat list" where
  "first_touch_from seen [] = seen"
| "first_touch_from seen (x # xs) =
     (if x \<in> set seen then first_touch_from seen xs else first_touch_from (seen @ [x]) xs)"

definition first_touch :: "nat list \<Rightarrow> nat list" where
  "first_touch xs = first_touch_from [] xs"

fun touch_rank :: "nat list \<Rightarrow> nat \<Rightarrow> nat" where
  "touch_rank [] x = 0"
| "touch_rank (d # ds) x = (if d = x then 0 else Suc (touch_rank ds x))"

definition all_indices :: "PrimitiveGroup list \<Rightarrow> nat list" where
  "all_indices groups = concat (map indices groups)"

section \<open>Single-precision arithmetic\<close>

text \<open>
  \<^verbatim>\<open>meshJump\<close>, the scores of the experiments and the cache costs are
  \<^verbatim>\<open>float\<close>.  A finite \<^verbatim>\<open>float\<close> is the rational number it stands for, and
  \<open>f32\<close> rounds a rational to the nearest binary32 value, ties to the even significand
  (24 bits, exponents from \<open>-126\<close>); no value of the stripifier comes near the overflow
  threshold \<open>2 ^ 128\<close>.  \<open>ilog2 a\<close> is the exponent \<open>e\<close> with \<open>2 ^ e \<le> a < 2 ^ (e + 1)\<close>.
\<close>

definition pow2 :: "int \<Rightarrow> rat" where
  "pow2 e = (if 0 \<le> e then 2 ^ nat e else 1 / 2 ^ nat (- e))"

definition ilog2 :: "rat \<Rightarrow> int" where
  "ilog2 a = (let (p, q) = quotient_of a; d = bitlen p - bitlen q
              in if pow2 d \<le> a then d else d - 1)"

definition round_even :: "rat \<Rightarrow> int" where
  "round_even q = (let n = \<lfloor>q\<rfloor>; r = q - of_int n
                   in if r < 1 / 2 then n else if 1 / 2 < r then n + 1
                      else if even n then n else n + 1)"

definition f32 :: "rat \<Rightarrow> rat" where
  "f32 x = (if x = 0 then 0
            else let e = max (ilog2 \<bar>x\<bar>) (- 126); u = pow2 (e - 23)
                 in of_int (round_even (x / u)) * u)"

text \<open>
  Division of two \<^verbatim>\<open>float\<close>s.  With a zero divisor the quotient is a NaN or an
  infinity; here the dividend is then never negative, and the only use of such a quotient is
  as the left operand of \<^verbatim>\<open><\<close> or \<^verbatim>\<open>>\<close> against a finite value that is at least
  0 for \<^verbatim>\<open>>\<close>, or as a NaN; \<open>None\<close> stands for it and compares false.
\<close>

definition f32_div :: "rat \<Rightarrow> rat \<Rightarrow> rat option" where
  "f32_div a b = (if b = 0 then None else Some (f32 (a / b)))"

text \<open>The cast \<^verbatim>\<open>(std::ptrdiff_t)x\<close> of a \<^verbatim>\<open>float\<close>: towards zero, undefined outside the type.\<close>

definition to_ptrdiff :: "rat \<Rightarrow> error + int" where
  "to_ptrdiff x =
     (let t = (if 0 \<le> x then \<lfloor>x\<rfloor> else \<lceil>x\<rceil>)
      in if - (2 ^ 63) \<le> t \<and> t < 2 ^ 63 then Inr t else Inl Overflow)"

text \<open>The conversion of an \<^verbatim>\<open>unsigned int\<close> to \<^verbatim>\<open>int\<close> (32 bits, two's complement).\<close>

definition to_int :: "nat \<Rightarrow> int" where
  "to_int v = (if int v < 2 ^ 31 then int v else int v - 2 ^ 32)"

section \<open>Edges and the topology\<close>

text \<open>
  Faces and edges are objects on the heap that several vectors and other objects point to.
  The model keeps the face objects in the list \<open>faces\<close> and the edge objects in the list
  \<open>edges\<close>; a pointer is the position of its object, a null pointer is \<open>None\<close>, and
  \<^verbatim>\<open>new\<close> appends to the list.  \<^verbatim>\<open>delete\<close> is not modelled: a deleted object stays
  in its list, and no pointer to it is followed afterwards.  The members \<^verbatim>\<open>m_v0\<close> and
  \<^verbatim>\<open>m_v1\<close> of an edge are \<open>e_v0\<close> and \<open>e_v1\<close>, since a face has members of the
  same names.
\<close>

record NvEdgeInfo =
  e_v0 :: int
  e_v1 :: int
  m_face0 :: "nat option"
  m_face1 :: "nat option"
  m_nextV0 :: "nat option"
  m_nextV1 :: "nat option"

text \<open>
  \<open>faceInfos\<close> and \<open>edgeInfos\<close> are the vectors \<^verbatim>\<open>allFaceInfos\<close> and
  \<^verbatim>\<open>allEdgeInfos\<close> of \<^verbatim>\<open>Stripify\<close>: the face table, and for every vertex the head of
  the chain of its edges.
\<close>

record Mesh =
  faces :: "NvFaceInfo list"
  edges :: "NvEdgeInfo list"
  faceInfos :: "nat list"
  edgeInfos :: "nat option list"

text \<open>
  \<^verbatim>\<open>FindEdgeInfo\<close>: the walk along the chain of \<open>v0\<close>.  The chain of a well-formed
  topology has no cycle and at most as many edges as there are edge objects, which is the
  bound of the walk.
\<close>

fun FindEdgeInfo_walk ::
  "bool \<Rightarrow> nat \<Rightarrow> NvEdgeInfo list \<Rightarrow> nat option \<Rightarrow> int \<Rightarrow> int \<Rightarrow> error + nat option" where
  "FindEdgeInfo_walk dbg k es None v0 v1 = Inr None"
| "FindEdgeInfo_walk dbg 0 es (Some infoIter) v0 v1 = Inl OutOfFuel"
| "FindEdgeInfo_walk dbg (Suc k) es (Some infoIter) v0 v1 =
     (let e = es ! infoIter
      in if e_v0 e = v0 then
           (if e_v1 e = v1 then Inr (Some infoIter)
            else FindEdgeInfo_walk dbg k es (m_nextV0 e) v0 v1)
         else if dbg \<and> e_v1 e \<noteq> v0 then Inl AssertFailed
         else if e_v0 e = v1 then Inr (Some infoIter)
         else FindEdgeInfo_walk dbg k es (m_nextV1 e) v0 v1)"

definition FindEdgeInfo :: "bool \<Rightarrow> Mesh \<Rightarrow> int \<Rightarrow> int \<Rightarrow> error + nat option" where
  "FindEdgeInfo dbg M v0 v1 =
     (if v0 < 0 \<or> length (edgeInfos M) \<le> nat v0 then Inl OutOfBounds
      else FindEdgeInfo_walk dbg (length (edges M)) (edges M) (edgeInfos M ! nat v0) v0 v1)"

text \<open>\<^verbatim>\<open>FindOtherFace\<close>; \<open>faceInfo\<close> is a pointer to a face.\<close>

definition FindOtherFace :: "bool \<Rightarrow> Mesh \<Rightarrow> int \<Rightarrow> int \<Rightarrow> nat \<Rightarrow> error + nat option" where
  "FindOtherFace dbg M v0 v1 faceInfo =
     bindE (FindEdgeInfo dbg M v0 v1) (\<lambda>edgeInfo.
       case edgeInfo of
         None \<Rightarrow> if v0 = v1 then Inr None
                 else if dbg then Inl AssertFailed else Inl NullDeref
       | Some e \<Rightarrow>
           Inr (if m_face0 (edges M ! e) = Some faceInfo then m_face1 (edges M ! e)
                else m_face0 (edges M ! e)))"

text \<open>\<^verbatim>\<open>AlreadyExists\<close>: \<^verbatim>\<open>std::any_of\<close> over the face table.\<close>

fun AlreadyExists_from :: "NvFaceInfo list \<Rightarrow> NvFaceInfo \<Rightarrow> nat list \<Rightarrow> bool" where
  "AlreadyExists_from fs faceInfo [] = False"
| "AlreadyExists_from fs faceInfo (f # rest) =
     (if m_v0 (fs ! f) = m_v0 faceInfo \<and> m_v1 (fs ! f) = m_v1 faceInfo \<and>
         m_v2 (fs ! f) = m_v2 faceInfo
      then True else AlreadyExists_from fs faceInfo rest)"

definition AlreadyExists :: "Mesh \<Rightarrow> nat \<Rightarrow> bool" where
  "AlreadyExists M faceInfo = AlreadyExists_from (faces M) (faces M ! faceInfo) (faceInfos M)"

text \<open>
  \<^verbatim>\<open>BuildStripifyInfo\<close> has the same block three times, for the edges \<open>(v0, v1)\<close>,
  \<open>(v1, v2)\<close> and \<open>(v2, v0)\<close> of the triangle; \<open>BuildStripifyInfo_edge\<close> is this block.
  It returns the topology, whether the edge was found (if not, \<^verbatim>\<open>bMightAlreadyExist\<close>
  is cleared), the value of \<^verbatim>\<open>bFaceUpdated[k]\<close> and the edge.  \<open>v0\<close> and \<open>v1\<close> are
  \<^verbatim>\<open>unsigned int\<close>; they index \<^verbatim>\<open>edgeInfos\<close> as they are and are converted to
  \<^verbatim>\<open>int\<close> for \<^verbatim>\<open>FindEdgeInfo\<close> and for the new edge.
\<close>

definition BuildStripifyInfo_edge ::
  "bool \<Rightarrow> Mesh \<Rightarrow> nat \<Rightarrow> nat \<Rightarrow> nat \<Rightarrow> error + (Mesh \<times> bool \<times> bool \<times> nat)" where
  "BuildStripifyInfo_edge dbg M faceInfo v0 v1 =
     bindE (FindEdgeInfo dbg M (to_int v0) (to_int v1)) (\<lambda>found.
       case found of
         None \<Rightarrow>
           if length (edgeInfos M) \<le> v0 \<or> length (edgeInfos M) \<le> v1 then Inl OutOfBounds
           else
             let edgeInfo = length (edges M);
                 e = \<lparr>e_v0 = to_int v0, e_v1 = to_int v1, m_face0 = Some faceInfo, m_face1 = None,
                      m_nextV0 = edgeInfos M ! v0, m_nextV1 = edgeInfos M ! v1\<rparr>
             in Inr (M\<lparr>edges := edges M @ [e],
                       edgeInfos := (edgeInfos M)[v0 := Some edgeInfo, v1 := Some edgeInfo]\<rparr>,
                     False, False, edgeInfo)
       | Some edgeInfo \<Rightarrow>
           if m_face1 (edges M ! edgeInfo) \<noteq> None then Inr (M, True, False, edgeInfo)
           else Inr (M\<lparr>edges := (edges M)[edgeInfo := (edges M ! edgeInfo)\<lparr>m_face1 := Some faceInfo\<rparr>]\<rparr>,
                     True, True, edgeInfo))"

text \<open>\<^verbatim>\<open>edgeInfo->m_face1 = nullptr\<close> when \<^verbatim>\<open>bFaceUpdated[k]\<close> is set.\<close>

definition reset_face1 :: "bool \<Rightarrow> nat \<Rightarrow> Mesh \<Rightarrow> Mesh" where
  "reset_face1 bFaceUpdated edgeInfo M =
     (if bFaceUpdated
      then M\<lparr>edges := (edges M)[edgeInfo := (edges M ! edgeInfo)\<lparr>m_face1 := None\<rparr>]\<rparr>
      else M)"

text \<open>The body of the loop of \<^verbatim>\<open>BuildStripifyInfo\<close> for one triangle of the index list.\<close>

definition BuildStripifyInfo_triangle :: "bool \<Rightarrow> Mesh \<Rightarrow> nat \<times> nat \<times> nat \<Rightarrow> error + Mesh" where
  "BuildStripifyInfo_triangle dbg M tri =
     (case tri of (v0, v1, v2) \<Rightarrow>
      if IsDegenerate3 v0 v1 v2 then Inr M
      else
        let faceInfo = length (faces M);
            M0 = M\<lparr>faces := faces M @ [NvFaceInfo_new (to_int v0) (to_int v1) (to_int v2)]\<rparr>
        in bindE (BuildStripifyInfo_edge dbg M0 faceInfo v0 v1) (\<lambda>(M1, found01, upd0, edgeInfo01).
           bindE (BuildStripifyInfo_edge dbg M1 faceInfo v1 v2) (\<lambda>(M2, found12, upd1, edgeInfo12).
           bindE (BuildStripifyInfo_edge dbg M2 faceInfo v2 v0) (\<lambda>(M3, found20, upd2, edgeInfo20).
             let bMightAlreadyExist = found01 \<and> found12 \<and> found20
             in if bMightAlreadyExist then
                  if \<not> AlreadyExists M3 faceInfo
                  then Inr (M3\<lparr>faceInfos := faceInfos M3 @ [faceInfo]\<rparr>)
                  else Inr (reset_face1 upd2 edgeInfo20
                             (reset_face1 upd1 edgeInfo12 (reset_face1 upd0 edgeInfo01 M3)))
                else Inr (M3\<lparr>faceInfos := faceInfos M3 @ [faceInfo]\<rparr>)))))"

text \<open>The index list cut into triangles; \<^verbatim>\<open>numIndices / 3\<close> of them, the rest is not read.\<close>

fun triangles :: "nat list \<Rightarrow> (nat \<times> nat \<times> nat) list" where
  "triangles (v0 # v1 # v2 # rest) = (v0, v1, v2) # triangles rest"
| "triangles rest = []"

fun BuildStripifyInfo_loop :: "bool \<Rightarrow> Mesh \<Rightarrow> (nat \<times> nat \<times> nat) list \<Rightarrow> error + Mesh" where
  "BuildStripifyInfo_loop dbg M [] = Inr M"
| "BuildStripifyInfo_loop dbg M (tri # rest) =
     bindE (BuildStripifyInfo_triangle dbg M tri) (\<lambda>M'. BuildStripifyInfo_loop dbg M' rest)"

definition BuildStripifyInfo :: "bool \<Rightarrow> nat list \<Rightarrow> nat \<Rightarrow> error + Mesh" where
  "BuildStripifyInfo dbg indices_in maxIndex =
     BuildStripifyInfo_loop dbg
       \<lparr>faces = [], edges = [], faceInfos = [], edgeInfos = replicate (maxIndex + 1) None\<rparr>
       (triangles indices_in)"

section \<open>Reset points\<close>

text \<open>
  The members of \<^verbatim>\<open>NvStripifier\<close>.  The member \<^verbatim>\<open>indices\<close> is \<open>s_indices\<close>
  (a primitive group has a member of the same name).
\<close>

record NvStripifier =
  s_indices :: "nat list"
  cacheSize :: int
  minStripLength :: nat
  meshJump :: rat
  bFirstTimeResetPoint :: bool

text \<open>\<^verbatim>\<open>FindStartPoint\<close>: the loop over the face table with \<^verbatim>\<open>bestCtr\<close>, \<^verbatim>\<open>bestIndex\<close> and \<open>i\<close>.\<close>

fun FindStartPoint_loop :: "bool \<Rightarrow> Mesh \<Rightarrow> nat list \<Rightarrow> int \<Rightarrow> int \<Rightarrow> int \<Rightarrow> error + (int \<times> int)" where
  "FindStartPoint_loop dbg M [] i bestCtr bestIndex = Inr (bestCtr, bestIndex)"
| "FindStartPoint_loop dbg M (f # rest) i bestCtr bestIndex =
     (let face = faces M ! f in
      bindE (FindOtherFace dbg M (m_v0 face) (m_v1 face) f) (\<lambda>o01.
      bindE (FindOtherFace dbg M (m_v1 face) (m_v2 face) f) (\<lambda>o12.
      bindE (FindOtherFace dbg M (m_v2 face) (m_v0 face) f) (\<lambda>o20.
        let ctr = (if o01 = None then 1 else 0) + (if o12 = None then 1 else 0) +
                  (if o20 = None then 1 else (0::int))
        in if bestCtr < ctr then FindStartPoint_loop dbg M rest (i + 1) ctr i
           else FindStartPoint_loop dbg M rest (i + 1) bestCtr bestIndex))))"

definition FindStartPoint :: "bool \<Rightarrow> Mesh \<Rightarrow> error + int" where
  "FindStartPoint dbg M =
     bindE (FindStartPoint_loop dbg M (faceInfos M) 0 (- 1) (- 1)) (\<lambda>(bestCtr, bestIndex).
       Inr (if bestCtr = 0 then - 1 else bestIndex))"

text \<open>
  The \<^verbatim>\<open>do ... while (i != startPoint)\<close> loop of \<^verbatim>\<open>FindGoodResetPoint\<close>.  It reads
  \<^verbatim>\<open>faceInfos[i]\<close> before any test of \<open>i\<close>.  When \<open>startPoint\<close> is inside the table
  the loop ends after at most \<open>numFaces\<close> rounds, the bound the caller passes.
\<close>

fun FindGoodResetPoint_scan :: "nat \<Rightarrow> Mesh \<Rightarrow> int \<Rightarrow> int \<Rightarrow> error + nat option" where
  "FindGoodResetPoint_scan 0 M startPoint i = Inl OutOfFuel"
| "FindGoodResetPoint_scan (Suc k) M startPoint i =
     (if i < 0 \<or> int (length (faceInfos M)) \<le> i then Inl OutOfBounds
      else if m_stripId (faces M ! (faceInfos M ! nat i)) < 0 then Inr (Some (faceInfos M ! nat i))
      else
        let i' = (if int (length (faceInfos M)) \<le> i + 1 then 0 else i + 1)
        in if i' \<noteq> startPoint then FindGoodResetPoint_scan k M startPoint i' else Inr None)"

text \<open>
  \<^verbatim>\<open>(std::ptrdiff_t)(float(numFaces - 1) * meshJump)\<close>: \<open>numFaces\<close> is a
  \<^verbatim>\<open>size_t\<close>, so \<open>numFaces - 1\<close> wraps to \<open>2 ^ 64 - 1\<close> for an empty table.
\<close>

definition jumpPoint :: "nat \<Rightarrow> rat \<Rightarrow> error + int" where
  "jumpPoint numFaces mj =
     to_ptrdiff (f32 (f32 (of_int ((int numFaces - 1) mod 2 ^ 64)) * mj))"

text \<open>\<^verbatim>\<open>meshJump += 0.1f; if (meshJump > 1.0f) meshJump = .05f;\<close>\<close>

definition nextJump :: "rat \<Rightarrow> rat" where
  "nextJump mj = (let mj' = f32 (mj + f32 (1 / 10)) in if 1 < mj' then f32 (1 / 20) else mj')"

text \<open>\<^verbatim>\<open>FindGoodResetPoint\<close> returns the face found (or null) and changes two members of the stripifier.\<close>

definition FindGoodResetPoint ::
  "bool \<Rightarrow> NvStripifier \<Rightarrow> Mesh \<Rightarrow> error + (nat option \<times> NvStripifier)" where
  "FindGoodResetPoint dbg S M =
     (let numFaces = length (faceInfos M) in
      bindE (if bFirstTimeResetPoint S
             then bindE (FindStartPoint dbg M) (\<lambda>sp. Inr (sp, S\<lparr>bFirstTimeResetPoint := False\<rparr>))
             else bindE (jumpPoint numFaces (meshJump S)) (\<lambda>sp. Inr (sp, S)))
        (\<lambda>(startPoint0, S1).
      bindE (if startPoint0 = - 1 then jumpPoint numFaces (meshJump S1) else Inr startPoint0)
        (\<lambda>startPoint.
      bindE (FindGoodResetPoint_scan (Suc numFaces) M startPoint startPoint) (\<lambda>result.
        Inr (result, S1\<lparr>meshJump := nextJump (meshJump S1)\<rparr>)))))"

section \<open>NvStripInfo: building one strip\<close>

record NvStripStartInfo =
  m_startFace :: "nat option"
  m_startEdge :: "nat option"
  m_toV1 :: bool

text \<open>
  A strip is owned by one vector at a time, so the model holds it as a value.  Its members
  \<^verbatim>\<open>m_stripId\<close> and \<^verbatim>\<open>m_experimentId\<close> are \<open>s_stripId\<close> and \<open>s_experimentId\<close>
  (a face has members of the same names); \<open>m_faces\<close> and \<open>m_Degenerates\<close> hold face
  pointers.
\<close>

record NvStripInfo =
  m_startInfo :: NvStripStartInfo
  m_faces :: "nat list"
  s_stripId :: int
  s_experimentId :: int
  visited :: bool
  m_numDegenerates :: int
  m_Degenerates :: "nat list"

definition NvStripInfo_new :: "NvStripStartInfo \<Rightarrow> int \<Rightarrow> int \<Rightarrow> NvStripInfo" where
  "NvStripInfo_new startInfo stripId experimentId =
     \<lparr>m_startInfo = startInfo, m_faces = [], s_stripId = stripId, s_experimentId = experimentId,
      visited = False, m_numDegenerates = 0, m_Degenerates = []\<rparr>"

definition IsExperiment :: "NvStripInfo \<Rightarrow> bool" where
  "IsExperiment strip = (0 \<le> s_experimentId strip)"

definition IsInStrip :: "NvStripInfo \<Rightarrow> Mesh \<Rightarrow> nat option \<Rightarrow> bool" where
  "IsInStrip strip M faceInfo =
     (case faceInfo of
        None \<Rightarrow> False
      | Some f \<Rightarrow>
          (if 0 \<le> s_experimentId strip then m_testStripId (faces M ! f) = s_stripId strip
           else m_stripId (faces M ! f) = s_stripId strip))"

definition IsMarked :: "NvStripInfo \<Rightarrow> NvFaceInfo \<Rightarrow> bool" where
  "IsMarked strip faceInfo =
     (0 \<le> m_stripId faceInfo \<or>
      (IsExperiment strip \<and> m_experimentId faceInfo = s_experimentId strip))"

definition MarkTriangle :: "bool \<Rightarrow> NvStripInfo \<Rightarrow> Mesh \<Rightarrow> nat \<Rightarrow> error + Mesh" where
  "MarkTriangle dbg strip M faceInfo =
     (let face = faces M ! faceInfo in
      bindE (assert dbg (\<not> IsMarked strip face)) (\<lambda>_.
        if IsExperiment strip then
          Inr (M\<lparr>faces := (faces M)[faceInfo :=
                 face\<lparr>m_experimentId := s_experimentId strip, m_testStripId := s_stripId strip\<rparr>]\<rparr>)
        else
          bindE (assert dbg (m_stripId face = - 1)) (\<lambda>_.
            Inr (M\<lparr>faces := (faces M)[faceInfo :=
                   face\<lparr>m_experimentId := - 1, m_stripId := s_stripId strip\<rparr>]\<rparr>))))"

text \<open>
  \<^verbatim>\<open>GetNextIndex\<close> reads the last two entries of \<^verbatim>\<open>indices\<close> (the scratch indices of
  \<^verbatim>\<open>Build\<close>, which come from \<^verbatim>\<open>int\<close> values and are read back as \<^verbatim>\<open>int\<close>).  The
  messages it prints are left out.
\<close>

definition GetNextIndex :: "bool \<Rightarrow> int list \<Rightarrow> NvFaceInfo \<Rightarrow> error + int" where
  "GetNextIndex dbg scratch face =
     (let n = length scratch in
      if n < 2 then Inl (if dbg then AssertFailed else OutOfBounds)
      else
        let v0 = scratch ! (n - 2); v1 = scratch ! (n - 1);
            fv0 = m_v0 face; fv1 = m_v1 face; fv2 = m_v2 face
        in if fv0 \<noteq> v0 \<and> fv0 \<noteq> v1 then Inr fv0
           else if fv1 \<noteq> v0 \<and> fv1 \<noteq> v1 then Inr fv1
           else if fv2 \<noteq> v0 \<and> fv2 \<noteq> v1 then Inr fv2
           else if fv0 = fv1 \<or> fv0 = fv2 then Inr fv0
           else if fv1 = fv0 \<or> fv1 = fv2 then Inr fv1
           else if fv2 = fv0 \<or> fv2 = fv1 then Inr fv2
           else Inr (- 1))"

text \<open>\<^verbatim>\<open>Unique\<close>: the loop over \<^verbatim>\<open>faceVec\<close> with the three flags.\<close>

fun Unique_loop :: "NvFaceInfo list \<Rightarrow> NvFaceInfo \<Rightarrow> bool \<Rightarrow> bool \<Rightarrow> bool \<Rightarrow> bool" where
  "Unique_loop [] face bv0 bv1 bv2 = True"
| "Unique_loop (f # rest) face bv0 bv1 bv2 =
     (let bv0' = (bv0 \<or> m_v0 f = m_v0 face \<or> m_v1 f = m_v0 face \<or> m_v2 f = m_v0 face);
          bv1' = (bv1 \<or> m_v0 f = m_v1 face \<or> m_v1 f = m_v1 face \<or> m_v2 f = m_v1 face);
          bv2' = (bv2 \<or> m_v0 f = m_v2 face \<or> m_v1 f = m_v2 face \<or> m_v2 f = m_v2 face)
      in if bv0' \<and> bv1' \<and> bv2' then False else Unique_loop rest face bv0' bv1' bv2')"

definition Unique :: "NvFaceInfo list \<Rightarrow> NvFaceInfo \<Rightarrow> bool" where
  "Unique faceVec face = Unique_loop faceVec face False False False"

text \<open>
  The two \<^verbatim>\<open>while (nextFace != nullptr && !IsMarked(nextFace))\<close> loops of
  \<^verbatim>\<open>Build\<close> have the same body, but for the vector they push to and for the test of
  \<^verbatim>\<open>Unique\<close> with \<^verbatim>\<open>tempAllFaces\<close>, which only the backward loop has
  (\<open>backward\<close>).  \<open>grown\<close> is \<^verbatim>\<open>forwardFaces\<close> or \<^verbatim>\<open>backwardFaces\<close>.  Every
  round marks a face of the topology that was not marked, so the number of face objects
  bounds the rounds.
\<close>

fun Build_extend ::
  "bool \<Rightarrow> bool \<Rightarrow> nat \<Rightarrow> NvStripInfo \<Rightarrow> Mesh \<Rightarrow> int list \<Rightarrow> nat list \<Rightarrow> nat list \<Rightarrow>
   int \<Rightarrow> int \<Rightarrow> nat option \<Rightarrow> error + (NvStripInfo \<times> Mesh \<times> nat list)" where
  "Build_extend dbg backward 0 strip M scratch grown tempAllFaces nv0 nv1 nextFace = Inl OutOfFuel"
| "Build_extend dbg backward (Suc k) strip M scratch grown tempAllFaces nv0 nv1 nextFace =
     (case nextFace of
        None \<Rightarrow> Inr (strip, M, grown)
      | Some nf \<Rightarrow>
          if IsMarked strip (faces M ! nf) then Inr (strip, M, grown)
          else if backward \<and> \<not> Unique (map (\<lambda>a. faces M ! a) tempAllFaces) (faces M ! nf)
          then Inr (strip, M, grown)
          else
            bindE (GetNextIndex dbg scratch (faces M ! nf)) (\<lambda>testnv1.
            bindE (FindOtherFace dbg M nv1 testnv1 nf) (\<lambda>nextNextFace.
            bindE (if (case nextNextFace of None \<Rightarrow> True | Some nn \<Rightarrow> IsMarked strip (faces M ! nn))
                   then
                     bindE (FindOtherFace dbg M nv0 testnv1 nf) (\<lambda>testNextFace.
                       if (case testNextFace of None \<Rightarrow> False
                           | Some tn \<Rightarrow> \<not> IsMarked strip (faces M ! tn))
                       then
                         let tempFace = length (faces M);
                             M1 = M\<lparr>faces := faces M @ [NvFaceInfo_new nv0 nv1 nv0]\<rparr>;
                             strip1 = strip\<lparr>m_Degenerates := m_Degenerates strip @ [tempFace]\<rparr>
                         in bindE (MarkTriangle dbg strip1 M1 tempFace) (\<lambda>M2.
                              Inr (strip1\<lparr>m_numDegenerates := m_numDegenerates strip1 + 1\<rparr>, M2,
                                   scratch @ [nv0], grown @ [tempFace], nv0))
                       else Inr (strip, M, scratch, grown, nv1))
                   else Inr (strip, M, scratch, grown, nv1))
              (\<lambda>(strip', M', scratch', grown', testnv0).
            bindE (MarkTriangle dbg strip' M' nf) (\<lambda>M''.
            bindE (FindOtherFace dbg M'' testnv0 testnv1 nf) (\<lambda>nextFace'.
              Build_extend dbg backward k strip' M'' (scratch' @ [testnv1]) (grown' @ [nf])
                (if backward then tempAllFaces @ [nf] else tempAllFaces)
                testnv0 testnv1 nextFace'))))))"

text \<open>\<^verbatim>\<open>Combine\<close>: the backward faces from the last to the first, then the forward faces.\<close>

definition Combine :: "NvStripInfo \<Rightarrow> nat list \<Rightarrow> nat list \<Rightarrow> NvStripInfo" where
  "Combine strip forward backward = strip\<lparr>m_faces := m_faces strip @ rev backward @ forward\<rparr>"

definition Build :: "bool \<Rightarrow> NvStripInfo \<Rightarrow> Mesh \<Rightarrow> error + (NvStripInfo \<times> Mesh)" where
  "Build dbg strip M =
     (case m_startFace (m_startInfo strip) of
        None \<Rightarrow> Inl NullDeref
      | Some startFace \<Rightarrow>
     bindE (MarkTriangle dbg strip M startFace) (\<lambda>M1.
     case m_startEdge (m_startInfo strip) of
        None \<Rightarrow> Inl NullDeref
      | Some startEdge \<Rightarrow>
     let e = edges M1 ! startEdge;
         v0 = (if m_toV1 (m_startInfo strip) then e_v0 e else e_v1 e);
         v1 = (if m_toV1 (m_startInfo strip) then e_v1 e else e_v0 e)
     in
     bindE (GetNextIndex dbg [v0, v1] (faces M1 ! startFace)) (\<lambda>v2.
     bindE (FindOtherFace dbg M1 v1 v2 startFace) (\<lambda>nextFace.
     bindE (Build_extend dbg False (Suc (length (faces M1))) strip M1 [v0, v1, v2] [startFace] []
              v1 v2 nextFace) (\<lambda>(strip2, M2, forwardFaces).
     bindE (FindOtherFace dbg M2 v1 v0 startFace) (\<lambda>nextFace2.
     bindE (Build_extend dbg True (Suc (length (faces M2))) strip2 M2 [v2, v1, v0] [] forwardFaces
              v1 v0 nextFace2) (\<lambda>(strip3, M3, backwardFaces).
       Inr (Combine strip3 forwardFaces backwardFaces, M3))))))))"

text \<open>\<^verbatim>\<open>SharesEdge\<close> follows the edge pointer it gets from \<^verbatim>\<open>FindEdgeInfo\<close> without a test.\<close>

definition SharesEdge_on :: "bool \<Rightarrow> NvStripInfo \<Rightarrow> Mesh \<Rightarrow> int \<Rightarrow> int \<Rightarrow> error + bool" where
  "SharesEdge_on dbg strip M va vb =
     bindE (FindEdgeInfo dbg M va vb) (\<lambda>currEdge.
       case currEdge of
         None \<Rightarrow> Inl NullDeref
       | Some e \<Rightarrow> Inr (IsInStrip strip M (m_face0 (edges M ! e)) \<or>
                        IsInStrip strip M (m_face1 (edges M ! e))))"

definition SharesEdge :: "bool \<Rightarrow> NvStripInfo \<Rightarrow> Mesh \<Rightarrow> nat \<Rightarrow> error + bool" where
  "SharesEdge dbg strip M faceInfo =
     (let face = faces M ! faceInfo in
      bindE (SharesEdge_on dbg strip M (m_v0 face) (m_v1 face)) (\<lambda>b01.
        if b01 then Inr True
        else bindE (SharesEdge_on dbg strip M (m_v1 face) (m_v2 face)) (\<lambda>b12.
          if b12 then Inr True
          else SharesEdge_on dbg strip M (m_v2 face) (m_v0 face))))"

section \<open>The experiments\<close>

text \<open>The walk of \<^verbatim>\<open>FindTraversal\<close> along the chain of \<open>v\<close>; it returns \<^verbatim>\<open>untouchedFace\<close> and \<^verbatim>\<open>edgeIter\<close>.\<close>

fun FindTraversal_walk ::
  "nat \<Rightarrow> Mesh \<Rightarrow> NvStripInfo \<Rightarrow> int \<Rightarrow> nat option \<Rightarrow> error + (nat option \<times> nat option)" where
  "FindTraversal_walk k M strip v None = Inr (None, None)"
| "FindTraversal_walk 0 M strip v (Some edgeIter) = Inl OutOfFuel"
| "FindTraversal_walk (Suc k) M strip v (Some edgeIter) =
     (let e = edges M ! edgeIter; face0 = m_face0 e; face1 = m_face1 e
      in if (case face0 of None \<Rightarrow> False | Some f0 \<Rightarrow> \<not> IsInStrip strip M face0) \<and>
            (case face1 of None \<Rightarrow> False | Some f1 \<Rightarrow> \<not> IsMarked strip (faces M ! f1))
         then Inr (face1, Some edgeIter)
         else if (case face1 of None \<Rightarrow> False | Some f1 \<Rightarrow> \<not> IsInStrip strip M face1) \<and>
                 (case face0 of None \<Rightarrow> False | Some f0 \<Rightarrow> \<not> IsMarked strip (faces M ! f0))
         then Inr (face0, Some edgeIter)
         else FindTraversal_walk k M strip v (if e_v0 e = v then m_nextV0 e else m_nextV1 e))"

text \<open>
  \<^verbatim>\<open>FindTraversal\<close> writes \<^verbatim>\<open>startInfo\<close>, which the caller keeps from one call to
  the next; \<^verbatim>\<open>m_toV1\<close> is written only when an edge was found.
\<close>

definition FindTraversal ::
  "bool \<Rightarrow> Mesh \<Rightarrow> NvStripInfo \<Rightarrow> NvStripStartInfo \<Rightarrow> error + (bool \<times> NvStripStartInfo)" where
  "FindTraversal dbg M strip startInfo =
     (case m_startEdge (m_startInfo strip) of
        None \<Rightarrow> Inl NullDeref
      | Some se \<Rightarrow>
     let v = (if m_toV1 (m_startInfo strip) then e_v1 (edges M ! se) else e_v0 (edges M ! se))
     in if v < 0 \<or> length (edgeInfos M) \<le> nat v then Inl OutOfBounds
     else
     bindE (FindTraversal_walk (length (edges M)) M strip v (edgeInfos M ! nat v))
       (\<lambda>(untouchedFace, edgeIter).
     let startInfo1 = startInfo\<lparr>m_startFace := untouchedFace, m_startEdge := edgeIter\<rparr>
     in case edgeIter of
          None \<Rightarrow> Inr (untouchedFace \<noteq> None, startInfo1)
        | Some ei \<Rightarrow>
            (case untouchedFace of
               None \<Rightarrow> Inl NullDeref
             | Some uf \<Rightarrow>
                 bindE (SharesEdge dbg strip M uf) (\<lambda>shares.
                   Inr (True,
                        startInfo1\<lparr>m_toV1 := (if shares then e_v0 (edges M ! ei) = v
                                               else e_v1 (edges M ! ei) = v)\<rparr>)))))"

text \<open>\<^verbatim>\<open>CommitStrips\<close>: the inner loop over the faces of one strip, and the loop over the strips.\<close>

fun CommitStrips_faces :: "bool \<Rightarrow> NvStripInfo \<Rightarrow> Mesh \<Rightarrow> nat list \<Rightarrow> error + Mesh" where
  "CommitStrips_faces dbg strip M [] = Inr M"
| "CommitStrips_faces dbg strip M (f # rest) =
     bindE (MarkTriangle dbg strip M f) (\<lambda>M'. CommitStrips_faces dbg strip M' rest)"

fun CommitStrips ::
  "bool \<Rightarrow> NvStripInfo list \<Rightarrow> Mesh \<Rightarrow> NvStripInfo list \<Rightarrow> error + (NvStripInfo list \<times> Mesh)" where
  "CommitStrips dbg allStrips M [] = Inr (allStrips, M)"
| "CommitStrips dbg allStrips M (strip # rest) =
     (let strip' = strip\<lparr>s_experimentId := - 1\<rparr> in
      bindE (CommitStrips_faces dbg strip' M (m_faces strip')) (\<lambda>M'.
        CommitStrips dbg (allStrips @ [strip']) M' rest))"

text \<open>
  \<^verbatim>\<open>AvgStripSize\<close>: \<^verbatim>\<open>sizeAccum\<close> summed over the strips, then the division of the
  two values converted to \<^verbatim>\<open>float\<close>.
\<close>

fun AvgStripSize_accum :: "NvStripInfo list \<Rightarrow> int \<Rightarrow> int" where
  "AvgStripSize_accum [] sizeAccum = sizeAccum"
| "AvgStripSize_accum (strip # rest) sizeAccum =
     AvgStripSize_accum rest (sizeAccum + int (length (m_faces strip)) - m_numDegenerates strip)"

definition AvgStripSize :: "NvStripInfo list \<Rightarrow> rat option" where
  "AvgStripSize strips =
     f32_div (f32 (of_int (AvgStripSize_accum strips 0))) (f32 (of_nat (length strips)))"

text \<open>
  Phase 3 of \<^verbatim>\<open>FindAllStrips\<close>: \<open>value\<close> is
  \<^verbatim>\<open>avgStripSize * avgStripSizeWeight + (numStrips * numStripsWeight)\<close> with the weights
  \<open>1.0f\<close> and \<open>0.0f\<close>.  The loop runs over the first \<open>numExperiments\<close> vectors.
\<close>

definition experimentValue :: "NvStripInfo list \<Rightarrow> rat option" where
  "experimentValue strips =
     (case AvgStripSize strips of
        None \<Rightarrow> None
      | Some avgStripSize \<Rightarrow>
          Some (f32 (f32 (avgStripSize * 1) + f32 (f32 (of_nat (length strips)) * 0))))"

fun FindAllStrips_best :: "NvStripInfo list list \<Rightarrow> nat \<Rightarrow> nat \<Rightarrow> rat \<Rightarrow> nat" where
  "FindAllStrips_best [] i bestIndex bestValue = bestIndex"
| "FindAllStrips_best (strips # rest) i bestIndex bestValue =
     (case experimentValue strips of
        None \<Rightarrow> FindAllStrips_best rest (Suc i) bestIndex bestValue
      | Some v \<Rightarrow>
          if bestValue < v then FindAllStrips_best rest (Suc i) i v
          else FindAllStrips_best rest (Suc i) bestIndex bestValue)"

text \<open>
  The state that one round of the \<^verbatim>\<open>while (!done)\<close> loop of \<^verbatim>\<open>FindAllStrips\<close>
  reads and writes: the committed strips, the topology with the faces and their marks, the
  stripifier (for \<^verbatim>\<open>FindGoodResetPoint\<close>) and the two counters.
\<close>

record SearchState =
  st_allStrips :: "NvStripInfo list"
  st_mesh :: Mesh
  st_stripifier :: NvStripifier
  st_experimentId :: int
  st_stripId :: int

text \<open>
  Phase 1, the loop \<^verbatim>\<open>for (i = 0; i < numSamples; i++)\<close>; \<open>n\<close> counts the samples
  that are left.  The result is \<open>done\<close>, the experiments, \<^verbatim>\<open>experimentIndex\<close> and the
  state.  The six strips of a reset point start at its edges 01, 10, 12, 21, 20 and 02.
\<close>

definition six_starts :: "bool \<Rightarrow> Mesh \<Rightarrow> nat \<Rightarrow> error + NvStripStartInfo list" where
  "six_starts dbg M nextFace =
     (let face = faces M ! nextFace in
      bindE (FindEdgeInfo dbg M (m_v0 face) (m_v1 face)) (\<lambda>edge01.
      bindE (FindEdgeInfo dbg M (m_v1 face) (m_v2 face)) (\<lambda>edge12.
      bindE (FindEdgeInfo dbg M (m_v2 face) (m_v0 face)) (\<lambda>edge20.
        Inr [\<lparr>m_startFace = Some nextFace, m_startEdge = edge01, m_toV1 = True\<rparr>,
             \<lparr>m_startFace = Some nextFace, m_startEdge = edge01, m_toV1 = False\<rparr>,
             \<lparr>m_startFace = Some nextFace, m_startEdge = edge12, m_toV1 = True\<rparr>,
             \<lparr>m_startFace = Some nextFace, m_startEdge = edge12, m_toV1 = False\<rparr>,
             \<lparr>m_startFace = Some nextFace, m_startEdge = edge20, m_toV1 = True\<rparr>,
             \<lparr>m_startFace = Some nextFace, m_startEdge = edge20, m_toV1 = False\<rparr>]))))"

text \<open>\<^verbatim>\<open>experiments[experimentIndex++].emplace_back(new NvStripInfo(..., stripId++, experimentId++))\<close>, for each start in turn.\<close>

fun add_experiments ::
  "NvStripStartInfo list \<Rightarrow> NvStripInfo list list \<Rightarrow> nat \<Rightarrow> int \<Rightarrow> int \<Rightarrow>
   NvStripInfo list list \<times> nat \<times> int \<times> int" where
  "add_experiments [] experiments experimentIndex eId sId = (experiments, experimentIndex, eId, sId)"
| "add_experiments (start # rest) experiments experimentIndex eId sId =
     add_experiments rest
       (experiments[experimentIndex := experiments ! experimentIndex @ [NvStripInfo_new start sId eId]])
       (Suc experimentIndex) (eId + 1) (sId + 1)"

fun FindAllStrips_setup ::
  "bool \<Rightarrow> nat \<Rightarrow> SearchState \<Rightarrow> NvStripInfo list list \<Rightarrow> nat \<Rightarrow> nat set \<Rightarrow>
   error + (bool \<times> NvStripInfo list list \<times> nat \<times> SearchState)" where
  "FindAllStrips_setup dbg 0 st experiments experimentIndex resetPoints =
     Inr (False, experiments, experimentIndex, st)"
| "FindAllStrips_setup dbg (Suc n) st experiments experimentIndex resetPoints =
     bindE (FindGoodResetPoint dbg (st_stripifier st) (st_mesh st)) (\<lambda>(found, S').
       let st1 = st\<lparr>st_stripifier := S'\<rparr> in
       case found of
         None \<Rightarrow> Inr (True, experiments, experimentIndex, st1)
       | Some nextFace \<Rightarrow>
           if nextFace \<in> resetPoints
           then FindAllStrips_setup dbg n st1 experiments experimentIndex resetPoints
           else
             bindE (assert dbg (m_stripId (faces (st_mesh st1) ! nextFace) < 0)) (\<lambda>_.
             bindE (six_starts dbg (st_mesh st1) nextFace) (\<lambda>starts.
               case add_experiments starts experiments experimentIndex
                      (st_experimentId st1) (st_stripId st1) of
                 (experiments', experimentIndex', eId', sId') \<Rightarrow>
                   FindAllStrips_setup dbg n (st1\<lparr>st_experimentId := eId', st_stripId := sId'\<rparr>)
                     experiments' experimentIndex' (insert nextFace resetPoints))))"

text \<open>
  Phase 2: for one experiment, the loop \<^verbatim>\<open>while (FindTraversal(...))\<close> that adds strip
  after strip.  Every strip marks its start face, which was not marked, so the number of face
  objects bounds the rounds.
\<close>

fun FindAllStrips_chain ::
  "bool \<Rightarrow> nat \<Rightarrow> Mesh \<Rightarrow> NvStripInfo \<Rightarrow> NvStripStartInfo \<Rightarrow> int \<Rightarrow> int \<Rightarrow> NvStripInfo list \<Rightarrow>
   error + (Mesh \<times> NvStripInfo list \<times> int)" where
  "FindAllStrips_chain dbg 0 M stripIter startInfo experimentId2 sId strips = Inl OutOfFuel"
| "FindAllStrips_chain dbg (Suc k) M stripIter startInfo experimentId2 sId strips =
     bindE (FindTraversal dbg M stripIter startInfo) (\<lambda>(found, startInfo').
       if found then
         bindE (Build dbg (NvStripInfo_new startInfo' sId experimentId2) M) (\<lambda>(stripIter', M').
           FindAllStrips_chain dbg k M' stripIter' startInfo' experimentId2 (sId + 1)
             (strips @ [stripIter']))
       else Inr (M, strips, sId))"

text \<open>Phase 2: the loop over the experiments \<open>i\<close>, \<open>i + 1\<close>, ... below \<open>numExperiments\<close>.\<close>

fun FindAllStrips_build ::
  "bool \<Rightarrow> nat \<Rightarrow> nat \<Rightarrow> Mesh \<Rightarrow> int \<Rightarrow> NvStripInfo list list \<Rightarrow>
   error + (Mesh \<times> int \<times> NvStripInfo list list)" where
  "FindAllStrips_build dbg 0 i M sId experiments = Inr (M, sId, experiments)"
| "FindAllStrips_build dbg (Suc n) i M sId experiments =
     (case experiments ! i of
        [] \<Rightarrow> Inl OutOfBounds
      | first # others \<Rightarrow>
          bindE (Build dbg first M) (\<lambda>(first', M1).
          bindE (FindAllStrips_chain dbg (Suc (length (faces M1))) M1 first'
                   \<lparr>m_startFace = None, m_startEdge = None, m_toV1 = False\<rparr>
                   (s_experimentId first') sId (first' # others)) (\<lambda>(M2, strips, sId').
            FindAllStrips_build dbg n (Suc i) M2 sId' (experiments[i := strips]))))"

text \<open>
  One round of the loop: the four phases.  \<^verbatim>\<open>experiments\<close> is an array of
  \<open>numSamples * 6\<close> empty vectors.  The destruction of the other experiments frees memory
  only.
\<close>

definition FindAllStrips_round :: "bool \<Rightarrow> nat \<Rightarrow> SearchState \<Rightarrow> error + (bool \<times> SearchState)" where
  "FindAllStrips_round dbg numSamples st =
     bindE (FindAllStrips_setup dbg numSamples st (replicate (numSamples * 6) []) 0 {})
       (\<lambda>(done_flag, experiments, numExperiments, st1).
     bindE (FindAllStrips_build dbg numExperiments 0 (st_mesh st1) (st_stripId st1) experiments)
       (\<lambda>(M2, sId2, experiments2).
     let bestIndex = FindAllStrips_best (take numExperiments experiments2) 0 0 0 in
     if length experiments2 \<le> bestIndex then Inl OutOfBounds
     else
     bindE (CommitStrips dbg (st_allStrips st1) M2 (experiments2 ! bestIndex)) (\<lambda>(allStrips', M3).
       Inr (done_flag, st1\<lparr>st_allStrips := allStrips', st_mesh := M3, st_stripId := sId2\<rparr>))))"

text \<open>
  The loop \<^verbatim>\<open>while (!done)\<close>.  A round that is not the last commits at least the reset
  point it started from, so there are at most as many rounds as faces, and one more.
\<close>

fun FindAllStrips_loop :: "bool \<Rightarrow> nat \<Rightarrow> nat \<Rightarrow> SearchState \<Rightarrow> error + SearchState" where
  "FindAllStrips_loop dbg numSamples 0 st = Inl OutOfFuel"
| "FindAllStrips_loop dbg numSamples (Suc k) st =
     bindE (FindAllStrips_round dbg numSamples st) (\<lambda>(done_flag, st').
       if done_flag then Inr st' else FindAllStrips_loop dbg numSamples k st')"

definition FindAllStrips ::
  "bool \<Rightarrow> NvStripifier \<Rightarrow> NvStripInfo list \<Rightarrow> Mesh \<Rightarrow> nat \<Rightarrow> error + SearchState" where
  "FindAllStrips dbg S allStrips0 M numSamples =
     FindAllStrips_loop dbg numSamples (Suc (length (faceInfos M)))
       \<lparr>st_allStrips = allStrips0, st_mesh = M, st_stripifier = S, st_experimentId = 0, st_stripId = 0\<rparr>"

section \<open>Splitting, dropping small strips and reordering\<close>

text \<open>
  The three \<^verbatim>\<open>while\<close> loops of \<^verbatim>\<open>SplitUpStripsAndOptimize\<close> that walk the faces
  \<open>fs\<close> of a committed strip (\<^verbatim>\<open>as->m_faces\<close>) with \<^verbatim>\<open>faceCtr\<close> or
  \<^verbatim>\<open>leftOff\<close>.  Each round reads \<open>fs\<close> at the counter and increments the counter, so a
  loop ends at the latest when the counter leaves the vector, where the read is out of bounds.
  \<open>base\<close> is \<^verbatim>\<open>threshold + j * threshold\<close>, \<open>lastShort\<close> is
  \<^verbatim>\<open>(j == numTimes - 1) && (numLeftover < 4) && (numLeftover > 0)\<close> and \<open>cur\<close> is
  \<^verbatim>\<open>currentStrip->m_faces\<close>.  The counters are never negative.
\<close>

function SplitUp_take ::
  "Mesh \<Rightarrow> nat list \<Rightarrow> nat \<Rightarrow> bool \<Rightarrow> nat \<Rightarrow> nat \<Rightarrow> bool \<Rightarrow> nat list \<Rightarrow>
   error + (nat \<times> nat \<times> nat list)" where
  "SplitUp_take M fs base lastShort faceCtr degenerateCount bFirstTime cur =
     (if faceCtr < base + degenerateCount then
        if length fs \<le> faceCtr then Inl OutOfBounds
        else if IsDegenerate (faces M ! (fs ! faceCtr)) then
          (if (faceCtr + 1 \<noteq> base + (degenerateCount + 1) \<or> lastShort) \<and> \<not> bFirstTime
           then SplitUp_take M fs base lastShort (faceCtr + 1) (degenerateCount + 1) bFirstTime
                  (cur @ [fs ! faceCtr])
           else SplitUp_take M fs base lastShort (faceCtr + 1) (degenerateCount + 1) bFirstTime cur)
        else SplitUp_take M fs base lastShort (faceCtr + 1) degenerateCount False
               (cur @ [fs ! faceCtr])
      else Inr (faceCtr, degenerateCount, cur))"
  by pat_completeness auto
termination
  by (relation "measure (\<lambda>(M, fs, base, lastShort, faceCtr, dc, bFirstTime, cur). length fs - faceCtr)")
     auto

function SplitUp_merge ::
  "Mesh \<Rightarrow> nat list \<Rightarrow> nat \<Rightarrow> nat \<Rightarrow> nat \<Rightarrow> nat \<Rightarrow> nat list \<Rightarrow> error + (nat \<times> nat \<times> nat list)" where
  "SplitUp_merge M fs numLeftover ctr faceCtr degenerateCount cur =
     (if ctr < numLeftover then
        if length fs \<le> faceCtr then Inl OutOfBounds
        else if \<not> IsDegenerate (faces M ! (fs ! faceCtr))
        then SplitUp_merge M fs numLeftover (ctr + 1) (faceCtr + 1) degenerateCount
               (cur @ [fs ! faceCtr])
        else SplitUp_merge M fs numLeftover ctr (faceCtr + 1) (degenerateCount + 1)
               (cur @ [fs ! faceCtr])
      else Inr (faceCtr, degenerateCount, cur))"
  by pat_completeness auto
termination
  by (relation "measure (\<lambda>(M, fs, numLeftover, ctr, faceCtr, dc, cur). length fs - faceCtr)") auto

function SplitUp_tail ::
  "Mesh \<Rightarrow> nat list \<Rightarrow> nat \<Rightarrow> nat \<Rightarrow> nat \<Rightarrow> bool \<Rightarrow> nat list \<Rightarrow> error + nat list" where
  "SplitUp_tail M fs numLeftover ctr leftOff bFirstTime cur =
     (if ctr < numLeftover then
        if length fs \<le> leftOff then Inl OutOfBounds
        else if \<not> IsDegenerate (faces M ! (fs ! leftOff))
        then SplitUp_tail M fs numLeftover (ctr + 1) (leftOff + 1) False (cur @ [fs ! leftOff])
        else if \<not> bFirstTime
        then SplitUp_tail M fs numLeftover ctr (leftOff + 1) bFirstTime (cur @ [fs ! leftOff])
        else SplitUp_tail M fs numLeftover ctr (leftOff + 1) bFirstTime cur
      else Inr cur)"
  by pat_completeness auto
termination
  by (relation "measure (\<lambda>(M, fs, numLeftover, ctr, leftOff, bFirstTime, cur). length fs - leftOff)")
     auto

text \<open>\<^verbatim>\<open>new NvStripInfo(startInfo, 0, -1)\<close> with the faces \<open>cur\<close> pushed to it.\<close>

definition piece :: "nat list \<Rightarrow> NvStripInfo" where
  "piece cur =
     (NvStripInfo_new \<lparr>m_startFace = None, m_startEdge = None, m_toV1 = False\<rparr> 0 (- 1))
       \<lparr>m_faces := cur\<rparr>"

text \<open>
  The loop \<^verbatim>\<open>for (j = 0; j < numTimes; j++)\<close>; \<open>n\<close> counts the rounds that are left.
  It returns \<^verbatim>\<open>numLeftover\<close>, \<^verbatim>\<open>degenerateCount\<close> and \<^verbatim>\<open>tempStrips\<close>.
\<close>

fun SplitUp_pieces ::
  "Mesh \<Rightarrow> nat list \<Rightarrow> nat \<Rightarrow> nat \<Rightarrow> nat \<Rightarrow> nat \<Rightarrow> nat \<Rightarrow> nat \<Rightarrow> NvStripInfo list \<Rightarrow>
   error + (nat \<times> nat \<times> NvStripInfo list)" where
  "SplitUp_pieces M fs threshold numTimes 0 j numLeftover degenerateCount tempStrips =
     Inr (numLeftover, degenerateCount, tempStrips)"
| "SplitUp_pieces M fs threshold numTimes (Suc n) j numLeftover degenerateCount tempStrips =
     (let lastShort = (j + 1 = numTimes \<and> numLeftover < 4 \<and> 0 < numLeftover) in
      bindE (SplitUp_take M fs (threshold + j * threshold) lastShort
               (j * threshold + degenerateCount) degenerateCount True [])
        (\<lambda>(faceCtr, dc1, cur1).
      bindE (if lastShort
             then bindE (SplitUp_merge M fs numLeftover 0 faceCtr dc1 cur1)
                    (\<lambda>(faceCtr2, dc2, cur2). Inr (0, dc2, cur2))
             else Inr (numLeftover, dc1, cur1))
        (\<lambda>(numLeftover', dc', cur').
          SplitUp_pieces M fs threshold numTimes n (j + 1) numLeftover' dc'
            (tempStrips @ [piece cur']))))"

text \<open>The body of the loop over the committed strips, for the strip with the faces \<open>fs\<close>.\<close>

definition SplitUp_strip ::
  "Mesh \<Rightarrow> nat \<Rightarrow> nat list \<Rightarrow> NvStripInfo list \<Rightarrow> error + NvStripInfo list" where
  "SplitUp_strip M threshold fs tempStrips =
     (let actualStripSize = length (filter (\<lambda>f. \<not> IsDegenerate (faces M ! f)) fs) in
      if threshold < actualStripSize then
        let numTimes = actualStripSize div threshold;
            numLeftover = actualStripSize mod threshold
        in bindE (SplitUp_pieces M fs threshold numTimes numTimes 0 numLeftover 0 tempStrips)
             (\<lambda>(numLeftover', degenerateCount, tempStrips').
                let leftOff = numTimes * threshold + degenerateCount
                in if numLeftover' \<noteq> 0 then
                     bindE (SplitUp_tail M fs numLeftover' 0 leftOff True [])
                       (\<lambda>cur. Inr (tempStrips' @ [piece cur]))
                   else Inr tempStrips')
      else Inr (tempStrips @ [piece fs]))"

fun SplitUp_strips ::
  "Mesh \<Rightarrow> nat \<Rightarrow> NvStripInfo list \<Rightarrow> NvStripInfo list \<Rightarrow> error + NvStripInfo list" where
  "SplitUp_strips M threshold [] tempStrips = Inr tempStrips"
| "SplitUp_strips M threshold (as # rest) tempStrips =
     bindE (SplitUp_strip M threshold (m_faces as) tempStrips) (SplitUp_strips M threshold rest)"

text \<open>
  \<^verbatim>\<open>RemoveSmallStrips\<close>.  \<open>RemoveSmallStrips_best\<close> is the \<^verbatim>\<open>for\<close> loop that looks
  for the face with the most cache hits among the faces not yet visited; it goes through
  \<^verbatim>\<open>tempFaceList\<close> and \<^verbatim>\<open>bVisitedList\<close> side by side.
\<close>

fun RemoveSmallStrips_best ::
  "VertexCache \<Rightarrow> Mesh \<Rightarrow> (nat \<times> bool) list \<Rightarrow> nat \<Rightarrow> int \<Rightarrow> nat \<Rightarrow> int \<times> nat" where
  "RemoveSmallStrips_best vcache M [] i bestNumHits bestIndex = (bestNumHits, bestIndex)"
| "RemoveSmallStrips_best vcache M ((f, bVisited) # rest) i bestNumHits bestIndex =
     (if bVisited then RemoveSmallStrips_best vcache M rest (Suc i) bestNumHits bestIndex
      else
        let numHits = CalcNumHitsFace vcache (faces M ! f)
        in if bestNumHits < numHits then RemoveSmallStrips_best vcache M rest (Suc i) numHits i
           else RemoveSmallStrips_best vcache M rest (Suc i) bestNumHits bestIndex)"

text \<open>
  The \<^verbatim>\<open>while (1)\<close> loop.  Every round but the last visits one more face, so there are
  at most as many rounds as faces, and one more.  The result is \<^verbatim>\<open>faceList\<close> and the
  cache as the loop leaves it.
\<close>

fun RemoveSmallStrips_loop ::
  "nat \<Rightarrow> Mesh \<Rightarrow> nat list \<Rightarrow> bool list \<Rightarrow> VertexCache \<Rightarrow> nat \<Rightarrow> nat list \<Rightarrow>
   error + (nat list \<times> VertexCache)" where
  "RemoveSmallStrips_loop 0 M tempFaceList bVisitedList vcache bestIndex faceList = Inl OutOfFuel"
| "RemoveSmallStrips_loop (Suc k) M tempFaceList bVisitedList vcache bestIndex faceList =
     (case RemoveSmallStrips_best vcache M (zip tempFaceList bVisitedList) 0 (- 1) bestIndex of
        (bestNumHits, bestIndex') \<Rightarrow>
          if bestNumHits = - 1 then Inr (faceList, vcache)
          else
            bindE (UpdateCacheFace vcache (faces M ! (tempFaceList ! bestIndex'))) (\<lambda>vcache'.
              RemoveSmallStrips_loop k M tempFaceList (bVisitedList[bestIndex' := True]) vcache'
                bestIndex' (faceList @ [tempFaceList ! bestIndex'])))"

text \<open>The first loop of \<^verbatim>\<open>RemoveSmallStrips\<close>: the strips below \<^verbatim>\<open>minStripLength\<close> give their faces to \<^verbatim>\<open>tempFaceList\<close>.\<close>

fun RemoveSmallStrips_sort ::
  "nat \<Rightarrow> NvStripInfo list \<Rightarrow> NvStripInfo list \<Rightarrow> nat list \<Rightarrow> NvStripInfo list \<times> nat list" where
  "RemoveSmallStrips_sort minLen [] allBigStrips tempFaceList = (allBigStrips, tempFaceList)"
| "RemoveSmallStrips_sort minLen (as # rest) allBigStrips tempFaceList =
     (if length (m_faces as) < minLen
      then RemoveSmallStrips_sort minLen rest allBigStrips (tempFaceList @ m_faces as)
      else RemoveSmallStrips_sort minLen rest (allBigStrips @ [as]) tempFaceList)"

definition RemoveSmallStrips ::
  "NvStripifier \<Rightarrow> Mesh \<Rightarrow> NvStripInfo list \<Rightarrow> error + (NvStripInfo list \<times> nat list)" where
  "RemoveSmallStrips S M strips =
     (case RemoveSmallStrips_sort (minStripLength S) strips [] [] of
        (allBigStrips, tempFaceList) \<Rightarrow>
          if tempFaceList \<noteq> [] then
            bindE (RemoveSmallStrips_loop (Suc (length tempFaceList)) M tempFaceList
                     (replicate (length tempFaceList) False)
                     (VertexCache_new (nat (cacheSize S))) 0 [])
              (\<lambda>(faceList, vcache). Inr (allBigStrips, faceList))
          else Inr (allBigStrips, []))"

text \<open>\<^verbatim>\<open>NumNeighbors\<close> and \<^verbatim>\<open>CalcNumHitsStrip\<close>.\<close>

definition NumNeighbors :: "bool \<Rightarrow> Mesh \<Rightarrow> nat \<Rightarrow> error + int" where
  "NumNeighbors dbg M f =
     (let face = faces M ! f in
      bindE (FindOtherFace dbg M (m_v0 face) (m_v1 face) f) (\<lambda>o01.
      bindE (FindOtherFace dbg M (m_v1 face) (m_v2 face) f) (\<lambda>o12.
      bindE (FindOtherFace dbg M (m_v2 face) (m_v0 face) f) (\<lambda>o20.
        Inr ((if o01 \<noteq> None then 1 else 0) + (if o12 \<noteq> None then 1 else 0) +
             (if o20 \<noteq> None then 1 else 0))))))"

fun CalcNumHitsStrip_count :: "VertexCache \<Rightarrow> NvFaceInfo list \<Rightarrow> int \<Rightarrow> int" where
  "CalcNumHitsStrip_count vcache [] numHits = numHits"
| "CalcNumHitsStrip_count vcache (f # rest) numHits =
     CalcNumHitsStrip_count vcache rest (numHits + CalcNumHitsFace vcache f)"

definition CalcNumHitsStrip :: "VertexCache \<Rightarrow> NvFaceInfo list \<Rightarrow> rat" where
  "CalcNumHitsStrip vcache fs =
     (if length fs \<noteq> 0
      then f32 (f32 (of_int (CalcNumHitsStrip_count vcache fs 0)) / f32 (of_nat (length fs)))
      else 0)"

text \<open>The first loop of the reordering: the strip with the least neighbours per face.\<close>

fun sum_neighbors :: "bool \<Rightarrow> Mesh \<Rightarrow> nat list \<Rightarrow> int \<Rightarrow> error + int" where
  "sum_neighbors dbg M [] acc = Inr acc"
| "sum_neighbors dbg M (f # rest) acc =
     bindE (NumNeighbors dbg M f) (\<lambda>n. sum_neighbors dbg M rest (acc + n))"

fun Optimize_first ::
  "bool \<Rightarrow> Mesh \<Rightarrow> NvStripInfo list \<Rightarrow> nat \<Rightarrow> rat \<Rightarrow> nat \<Rightarrow> error + nat" where
  "Optimize_first dbg M [] j minCost firstIndex = Inr firstIndex"
| "Optimize_first dbg M (ts # rest) j minCost firstIndex =
     bindE (sum_neighbors dbg M (m_faces ts) 0) (\<lambda>numNeighbors.
       case f32_div (f32 (of_int numNeighbors)) (f32 (of_nat (length (m_faces ts)))) of
         None \<Rightarrow> Optimize_first dbg M rest (Suc j) minCost firstIndex
       | Some currCost \<Rightarrow>
           if currCost < minCost then Optimize_first dbg M rest (Suc j) currCost j
           else Optimize_first dbg M rest (Suc j) minCost firstIndex)"

text \<open>
  The reordering computes \<^verbatim>\<open>tFirstFace\<close> as \<^verbatim>\<open>CreateStrips\<close> does, but without the
  case of a degenerate second face.
\<close>

definition Optimize_firstFace :: "NvFaceInfo list \<Rightarrow> NvFaceInfo" where
  "Optimize_firstFace fs =
     (let nStripFaceCount = length fs;
          t0 = NvFaceInfo_new (m_v0 (fs ! 0)) (m_v1 (fs ! 0)) (m_v2 (fs ! 0))
      in if 1 < nStripFaceCount then
           let nUnique = GetUniqueVertexInB (fs ! 1) t0;
               t1 = (if nUnique = m_v1 t0 then t0\<lparr>m_v0 := m_v1 t0, m_v1 := m_v0 t0\<rparr>
                     else if nUnique = m_v2 t0 then t0\<lparr>m_v0 := m_v2 t0, m_v2 := m_v0 t0\<rparr>
                     else t0)
           in if 2 < nStripFaceCount then
                let (nShared0, nShared1) = GetSharedVertices (fs ! 2) t1
                in if nShared0 = m_v1 t1 \<and> nShared1 = - 1
                   then t1\<lparr>m_v1 := m_v2 t1, m_v2 := m_v1 t1\<rparr> else t1
              else t1
         else t0)"

text \<open>The faces of a strip, each pointer followed.\<close>

definition strip_faces :: "Mesh \<Rightarrow> NvStripInfo \<Rightarrow> NvFaceInfo list" where
  "strip_faces M strip = map (\<lambda>f. faces M ! f) (m_faces strip)"

text \<open>The \<^verbatim>\<open>for\<close> loop that looks for the next strip, over \<^verbatim>\<open>tempStrips2\<close> from index \<open>i\<close> on.\<close>

fun Optimize_best ::
  "VertexCache \<Rightarrow> Mesh \<Rightarrow> bool \<Rightarrow> NvStripInfo list \<Rightarrow> nat \<Rightarrow> rat \<Rightarrow> nat \<Rightarrow> error + (rat \<times> nat)" where
  "Optimize_best vcache M bWantsCW [] i bestNumHits bestIndex = Inr (bestNumHits, bestIndex)"
| "Optimize_best vcache M bWantsCW (strip # rest) i bestNumHits bestIndex =
     (if visited strip then Optimize_best vcache M bWantsCW rest (Suc i) bestNumHits bestIndex
      else
        let fs = strip_faces M strip; numHits = CalcNumHitsStrip vcache fs
        in if bestNumHits < numHits then Optimize_best vcache M bWantsCW rest (Suc i) numHits i
           else if bestNumHits \<le> numHits then
             (if fs = [] then Inl OutOfBounds
              else
                let tFirstFace = Optimize_firstFace fs
                in if bWantsCW = IsCW (fs ! 0) (m_v0 tFirstFace) (m_v1 tFirstFace)
                   then Optimize_best vcache M bWantsCW rest (Suc i) bestNumHits i
                   else Optimize_best vcache M bWantsCW rest (Suc i) bestNumHits bestIndex)
           else Optimize_best vcache M bWantsCW rest (Suc i) bestNumHits bestIndex)"

text \<open>
  The \<^verbatim>\<open>while (1)\<close> loop of the reordering; one more strip is visited in every round but
  the last.  The result is \<^verbatim>\<open>outStrips\<close> and the cache as the loop leaves it.
\<close>

fun Optimize_loop ::
  "nat \<Rightarrow> Mesh \<Rightarrow> NvStripInfo list \<Rightarrow> VertexCache \<Rightarrow> bool \<Rightarrow> nat \<Rightarrow> NvStripInfo list \<Rightarrow>
   error + (NvStripInfo list \<times> VertexCache)" where
  "Optimize_loop 0 M tempStrips2 vcache bWantsCW bestIndex outStrips = Inl OutOfFuel"
| "Optimize_loop (Suc k) M tempStrips2 vcache bWantsCW bestIndex outStrips =
     bindE (Optimize_best vcache M bWantsCW tempStrips2 0 (- 1) bestIndex)
       (\<lambda>(bestNumHits, bestIndex').
          if bestNumHits = - 1 then Inr (outStrips, vcache)
          else
            let chosen = (tempStrips2 ! bestIndex')\<lparr>visited := True\<rparr>
            in bindE (UpdateCacheStrip vcache (strip_faces M chosen)) (\<lambda>vcache'.
                 Optimize_loop k M (tempStrips2[bestIndex' := chosen]) vcache'
                   (if length (m_faces chosen) mod 2 = 0 then bWantsCW else \<not> bWantsCW)
                   bestIndex' (outStrips @ [chosen])))"

definition Optimize ::
  "bool \<Rightarrow> NvStripifier \<Rightarrow> Mesh \<Rightarrow> NvStripInfo list \<Rightarrow> error + (NvStripInfo list \<times> VertexCache)" where
  "Optimize dbg S M tempStrips2 =
     bindE (Optimize_first dbg M tempStrips2 0 10000 0) (\<lambda>firstIndex.
       let vcache = VertexCache_new (nat (cacheSize S));
           first = (tempStrips2 ! firstIndex)\<lparr>visited := True\<rparr>
       in bindE (UpdateCacheStrip vcache (strip_faces M first)) (\<lambda>vcache1.
            Optimize_loop (Suc (length tempStrips2)) M (tempStrips2[firstIndex := first]) vcache1
              (length (m_faces first) mod 2 = 0) 0 [first]))"

definition SplitUpStripsAndOptimize ::
  "bool \<Rightarrow> NvStripifier \<Rightarrow> Mesh \<Rightarrow> NvStripInfo list \<Rightarrow> error + (NvStripInfo list \<times> nat list)" where
  "SplitUpStripsAndOptimize dbg S M strips =
     bindE (SplitUp_strips M (nat (cacheSize S)) strips []) (\<lambda>tempStrips.
     bindE (RemoveSmallStrips S M tempStrips) (\<lambda>(tempStrips2, outFaceList).
       if tempStrips2 \<noteq> [] then
         bindE (Optimize dbg S M tempStrips2) (\<lambda>(outStrips, vcache). Inr (outStrips, outFaceList))
       else Inr ([], outFaceList)))"

section \<open>Stripify and GenerateStrips\<close>

text \<open>
  \<^verbatim>\<open>Stripify\<close>.  The constructor of \<^verbatim>\<open>NvStripifier\<close> and the first lines of
  \<^verbatim>\<open>Stripify\<close> set all five members (\<open>Stripify_members\<close>).  The result is \<^verbatim>\<open>outStrips\<close> and
  \<^verbatim>\<open>outFaceList\<close>, with the topology, where the face objects they point to are.  The
  clean-up at the end frees memory only.
\<close>

definition CACHE_INEFFICIENCY :: int where
  "CACHE_INEFFICIENCY = 6"

definition Stripify_members :: "nat list \<Rightarrow> int \<Rightarrow> nat \<Rightarrow> NvStripifier" where
  "Stripify_members in_indices in_cacheSize in_minStripLength =
     \<lparr>s_indices = in_indices, cacheSize = max 1 (in_cacheSize - CACHE_INEFFICIENCY),
      minStripLength = in_minStripLength, meshJump = 0, bFirstTimeResetPoint = True\<rparr>"

definition Stripify ::
  "bool \<Rightarrow> nat list \<Rightarrow> int \<Rightarrow> nat \<Rightarrow> nat \<Rightarrow> error + (NvStripInfo list \<times> nat list \<times> Mesh)" where
  "Stripify dbg in_indices in_cacheSize in_minStripLength maxIndex =
     (let S = Stripify_members in_indices in_cacheSize in_minStripLength;
          numSamples = 10
      in bindE (BuildStripifyInfo dbg (s_indices S) maxIndex) (\<lambda>M.
         bindE (FindAllStrips dbg S [] M numSamples) (\<lambda>st.
         bindE (SplitUpStripsAndOptimize dbg (st_stripifier st) (st_mesh st) (st_allStrips st))
           (\<lambda>(outStrips, outFaceList). Inr (outStrips, outFaceList, st_mesh st)))))"

text \<open>
  The four settings of NvTriStrip.cpp, which are static variables there; the defaults are
  16 (\<^verbatim>\<open>CACHESIZE_GEFORCE1_2\<close>, as the comment of \<^verbatim>\<open>SetCacheSize\<close> says),
  \<open>True\<close>, 0 and \<open>False\<close>.
\<close>

record Settings =
  cfg_cacheSize :: nat
  bStitchStrips :: bool
  minStripSize :: nat
  bListsOnly :: bool

definition default_settings :: Settings where
  "default_settings = \<lparr>cfg_cacheSize = 16, bStitchStrips = True, minStripSize = 0, bListsOnly = False\<rparr>"

text \<open>An \<^verbatim>\<open>int\<close> stored into the \<^verbatim>\<open>size_t\<close> array of a group.\<close>

definition to_size_t :: "int \<Rightarrow> nat" where
  "to_size_t v = (if 0 \<le> v then nat v else nat (v + 2 ^ 64))"

definition face_indices :: "NvFaceInfo \<Rightarrow> nat list" where
  "face_indices f = [to_size_t (m_v0 f), to_size_t (m_v1 f), to_size_t (m_v2 f)]"

text \<open>
  The branch \<^verbatim>\<open>if (bListsOnly)\<close>: one list group.  \<^verbatim>\<open>numIndices\<close> is lowered by three
  for every degenerate face of a strip, so it counts the indices written for the strips and
  for the faces of the list.
\<close>

definition GenerateStrips_list :: "NvFaceInfo list list \<Rightarrow> NvFaceInfo list \<Rightarrow> PrimitiveGroup list" where
  "GenerateStrips_list tempStrips tempFaces =
     [\<lparr>ptype = PT_LIST,
       indices = concat (map face_indices (filter (\<lambda>f. \<not> IsDegenerate f) (concat tempStrips))) @
                 concat (map face_indices tempFaces)\<rparr>]"

text \<open>
  The loop \<^verbatim>\<open>for (i = startingLoc; i < stripIndices.size(); i++)\<close> that stops at the
  first \<open>-1\<close>: the number of entries before it.
\<close>

fun run_length :: "int list \<Rightarrow> nat" where
  "run_length [] = 0"
| "run_length (x # xs) = (if x = - 1 then 0 else Suc (run_length xs))"

text \<open>The loop over \<^verbatim>\<open>stripCtr\<close>; \<open>n\<close> counts the strips that are left.\<close>

fun GenerateStrips_strips :: "bool \<Rightarrow> int list \<Rightarrow> nat \<Rightarrow> nat \<Rightarrow> PrimitiveGroup list" where
  "GenerateStrips_strips stitch stripIndices 0 startingLoc = []"
| "GenerateStrips_strips stitch stripIndices (Suc n) startingLoc =
     (let stripLength = (if \<not> stitch then run_length (drop startingLoc stripIndices)
                         else length stripIndices)
      in \<lparr>ptype = PT_STRIP,
           indices = map to_size_t (take stripLength (drop startingLoc stripIndices))\<rparr> #
         GenerateStrips_strips stitch stripIndices n (startingLoc + stripLength + 1))"

text \<open>
  The part of \<^verbatim>\<open>GenerateStrips\<close> after the call of \<^verbatim>\<open>Stripify\<close>, which builds the
  groups from \<^verbatim>\<open>tempStrips\<close> and \<^verbatim>\<open>tempFaces\<close> (the faces read through their
  pointers).
\<close>

definition GenerateStrips_groups ::
  "bool \<Rightarrow> Settings \<Rightarrow> NvFaceInfo list list \<Rightarrow> NvFaceInfo list \<Rightarrow> error + PrimitiveGroup list" where
  "GenerateStrips_groups dbg cfg tempStrips tempFaces =
     (if bListsOnly cfg then Inr (GenerateStrips_list tempStrips tempFaces)
      else
        bindE (CreateStrips dbg tempStrips (bStitchStrips cfg) [] 0)
          (\<lambda>(stripIndices, numSeparateStrips).
        bindE (assert dbg ((bStitchStrips cfg \<and> numSeparateStrips = 1) \<or> \<not> bStitchStrips cfg)) (\<lambda>_.
          Inr (GenerateStrips_strips (bStitchStrips cfg) stripIndices numSeparateStrips 0 @
               (if tempFaces \<noteq> []
                then [\<lparr>ptype = PT_LIST, indices = concat (map face_indices tempFaces)\<rparr>]
                else [])))))"

text \<open>\<^verbatim>\<open>GenerateStrips\<close>; \<^verbatim>\<open>*numGroups\<close> is the length of the result.\<close>

fun maxIndex_of :: "nat list \<Rightarrow> nat \<Rightarrow> nat" where
  "maxIndex_of [] maxIndex = maxIndex"
| "maxIndex_of (x # xs) maxIndex = maxIndex_of xs (if maxIndex < x then x else maxIndex)"

definition GenerateStrips :: "bool \<Rightarrow> Settings \<Rightarrow> nat list \<Rightarrow> error + PrimitiveGroup list" where
  "GenerateStrips dbg cfg in_indices =
     bindE (Stripify dbg in_indices (to_int (cfg_cacheSize cfg)) (minStripSize cfg)
              (maxIndex_of in_indices 0))
       (\<lambda>(tempStrips, tempFaces, M).
          GenerateStrips_groups dbg cfg (map (strip_faces M) tempStrips)
            (map (\<lambda>f. faces M ! f) tempFaces))"

section \<open>Predicates used in the proofs\<close>

text \<open>
  \<open>remap_rep ds indexCache indexCtr\<close>: the state of \<^verbatim>\<open>RemapIndices\<close> after it has met
  the distinct indices \<open>ds\<close>, in this order.
\<close>

definition remap_rep :: "nat list \<Rightarrow> nat list \<Rightarrow> nat \<Rightarrow> bool" where
  "remap_rep ds indexCache indexCtr \<longleftrightarrow>
     length ds = indexCtr \<and> distinct ds \<and> (\<forall>x\<in>set ds. x < length indexCache) \<and>
     (\<forall>x<length indexCache. indexCache ! x = (if x \<in> set ds then touch_rank ds x else SIZE_MAX)) \<and>
     length indexCache < SIZE_MAX"

text \<open>A face whose three vertex indices are indices of vertices, so none of them is negative.\<close>

definition nonneg_face :: "NvFaceInfo \<Rightarrow> bool" where
  "nonneg_face f \<longleftrightarrow> 0 \<le> m_v0 f \<and> 0 \<le> m_v1 f \<and> 0 \<le> m_v2 f"

text \<open>The slots of a cache that are not empty hold pairwise distinct vertex indices.\<close>

definition cache_distinct :: "VertexCache \<Rightarrow> bool" where
  "cache_distinct vc \<longleftrightarrow> distinct (filter (\<lambda>e. e \<noteq> - 1) (entries vc))"

text \<open>
  The topology of the single triangle \<open>(0, 1, 2)\<close>, as \<open>BuildStripifyInfo\<close> builds it,
  and a stripifier with a cache of two slots; they serve as concrete inputs.
\<close>

definition triangle_mesh :: Mesh where
  "triangle_mesh =
     \<lparr>faces = [NvFaceInfo_new 0 1 2],
      edges = [\<lparr>e_v0 = 0, e_v1 = 1, m_face0 = Some 0, m_face1 = None, m_nextV0 = None, m_nextV1 = None\<rparr>,
               \<lparr>e_v0 = 1, e_v1 = 2, m_face0 = Some 0, m_face1 = None, m_nextV0 = Some 0, m_nextV1 = None\<rparr>,
               \<lparr>e_v0 = 2, e_v1 = 0, m_face0 = Some 0, m_face1 = None, m_nextV0 = Some 1, m_nextV1 = Some 0\<rparr>],
      faceInfos = [0], edgeInfos = [Some 2, Some 1, Some 2]\<rparr>"

definition small_stripifier :: NvStripifier where
  "small_stripifier =
     \<lparr>s_indices = [0, 1, 2], cacheSize = 2, minStripLength = 0, meshJump = 0,
      bFirstTimeResetPoint = False\<rparr>"


definition set_face1 :: "nat \<Rightarrow> nat \<Rightarrow> NvEdgeInfo list \<Rightarrow> NvEdgeInfo list" where
  "set_face1 f e es =
     (if m_face1 (es ! e) \<noteq> None then es else es[e := (es ! e)\<lparr>m_face1 := Some f\<rparr>])"

definition clear_face1 :: "bool \<Rightarrow> nat \<Rightarrow> NvEdgeInfo list \<Rightarrow> NvEdgeInfo list" where
  "clear_face1 upd e es = (if upd then es[e := (es ! e)\<lparr>m_face1 := None\<rparr>] else es)"

text \<open>
  A face of the table is claimed when its \<^verbatim>\<open>m_stripId\<close> is not negative: a committed strip
  holds it.  \<open>triangle_start\<close> is the state in which \<open>FindAllStrips\<close> starts on the single
  triangle, and \<open>triangle_claimed\<close> the topology after the first round.
\<close>

definition unclaimed :: "Mesh \<Rightarrow> nat \<Rightarrow> bool" where
  "unclaimed M f \<longleftrightarrow> m_stripId (faces M ! f) < 0"

definition all_claimed :: "Mesh \<Rightarrow> bool" where
  "all_claimed M \<longleftrightarrow> (\<forall>f\<in>set (faceInfos M). 0 \<le> m_stripId (faces M ! f))"

definition triangle_start :: SearchState where
  "triangle_start =
     \<lparr>st_allStrips = [], st_mesh = triangle_mesh, st_stripifier = Stripify_members [0, 1, 2] 16 0,
      st_experimentId = 0, st_stripId = 0\<rparr>"

definition triangle_claimed :: Mesh where
  "triangle_claimed =
     triangle_mesh\<lparr>faces := [\<lparr>m_v0 = 0, m_v1 = 1, m_v2 = 2, m_stripId = 0, m_testStripId = 5,
                                m_experimentId = - 1\<rparr>]\<rparr>"

section \<open>Verification: basic facts\<close>

lemma bindE_Inl [simp]: "bindE (Inl e) f = Inl e"
  by (simp add: bindE_def)

lemma bindE_Inr [simp]: "bindE (Inr x) f = f x"
  by (simp add: bindE_def)

lemma bindE_eq_Inr: "bindE m f = Inr y \<longleftrightarrow> (\<exists>x. m = Inr x \<and> f x = Inr y)"
  by (cases m) simp_all

section \<open>Properties of the vertex cache\<close>

lemma InCache_from_set: "InCache_from es v \<longleftrightarrow> v \<in> set es"
  by (induction es) auto

lemma InCache_iff: "InCache vc v \<longleftrightarrow> (\<exists>i < numEntries vc. entries vc ! i = v)"
  by (auto simp: InCache_def numEntries_def InCache_from_set in_set_conv_nth)

lemma length_push_right [simp]: "length (push_right k es) = length es"
  by (induction k arbitrary: es) simp_all

lemma push_right_nth:
  "k < length es \<Longrightarrow>
   push_right k es ! j = (if j = 0 \<or> k < j then es ! j else es ! (j - 1))"
proof (induction k arbitrary: es j)
  case 0
  then show ?case by simp
next
  case (Suc k)
  then have "k < length (es[Suc k := es ! k])" by simp
  from Suc.IH [OF this, of j] Suc.prems show ?case
    by (cases "j = Suc k") (auto simp: nth_list_update)
qed

lemma AddEntry_entries:
  assumes "0 < numEntries vc"
  shows "AddEntry vc v = Inr (last (entries vc), vc\<lparr>entries := v # butlast (entries vc)\<rparr>)"
proof -
  let ?es = "entries vc"
  let ?n = "length ?es"
  from assms have n: "0 < ?n" and ne: "?es \<noteq> []"
    by (auto simp: numEntries_def)
  have "(push_right (?n - 1) ?es)[0 := v] = v # butlast ?es"
  proof (rule nth_equalityI)
    show "length ((push_right (?n - 1) ?es)[0 := v]) = length (v # butlast ?es)"
      using n by simp
  next
    fix j assume "j < length ((push_right (?n - 1) ?es)[0 := v])"
    then have j: "j < ?n" by simp
    with n show "(push_right (?n - 1) ?es)[0 := v] ! j = (v # butlast ?es) ! j"
      by (cases j) (auto simp: nth_list_update push_right_nth nth_butlast)
  qed
  moreover have "?es ! (?n - 1) = last ?es"
    using ne by (simp add: last_conv_nth)
  ultimately show ?thesis
    using assms by (simp add: AddEntry_def numEntries_def Let_def)
qed


text \<open>
  Claim C8.  A freshly constructed cache of capacity \<open>c\<close> has \<open>-1\<close> in every slot.
  \<open>AddEntry\<close> on a cache with at least one slot returns the previous content of the last
  slot (which is evicted), puts the new entry into slot 0 and moves the previous content of
  every slot \<open>i\<close> with \<open>i + 1 < c\<close> to slot \<open>i + 1\<close>.  \<open>InCache\<close> is true
  exactly when some slot holds the entry, and \<open>Clear\<close> puts \<open>-1\<close> into every slot.
\<close>

theorem C8_vertex_cache_slots:
  "(numEntries (VertexCache_new c) = c \<and> (\<forall>i<c. entries (VertexCache_new c) ! i = - 1)) \<and>
   (0 < numEntries vc \<longrightarrow>
      (\<exists>vc'. AddEntry vc v = Inr (entries vc ! (numEntries vc - 1), vc') \<and>
             numEntries vc' = numEntries vc \<and>
             entries vc' ! 0 = v \<and>
             (\<forall>i. i + 1 < numEntries vc \<longrightarrow> entries vc' ! (i + 1) = entries vc ! i))) \<and>
   (InCache vc v \<longleftrightarrow> (\<exists>i<numEntries vc. entries vc ! i = v)) \<and>
   (numEntries (Clear vc) = numEntries vc \<and> (\<forall>i<numEntries vc. entries (Clear vc) ! i = - 1))"
proof (intro conjI impI)
  show "numEntries (VertexCache_new c) = c"
    by (simp add: VertexCache_new_def numEntries_def)
  show "\<forall>i<c. entries (VertexCache_new c) ! i = - 1"
    by (simp add: VertexCache_new_def)
  show "InCache vc v \<longleftrightarrow> (\<exists>i<numEntries vc. entries vc ! i = v)"
    by (rule InCache_iff)
  show "numEntries (Clear vc) = numEntries vc"
    by (simp add: Clear_def numEntries_def)
  show "\<forall>i<numEntries vc. entries (Clear vc) ! i = - 1"
    by (simp add: Clear_def numEntries_def)
next
  assume pos: "0 < numEntries vc"
  then have ne: "entries vc \<noteq> []"
    by (auto simp: numEntries_def)
  let ?vc' = "vc\<lparr>entries := v # butlast (entries vc)\<rparr>"
  have "AddEntry vc v = Inr (entries vc ! (numEntries vc - 1), ?vc')"
    using AddEntry_entries [OF pos, of v] ne by (simp add: last_conv_nth numEntries_def)
  moreover have "numEntries ?vc' = numEntries vc"
    using ne by (simp add: numEntries_def)
  moreover have "entries ?vc' ! 0 = v"
    by simp
  moreover have "\<forall>i. i + 1 < numEntries vc \<longrightarrow> entries ?vc' ! (i + 1) = entries vc ! i"
    by (simp add: numEntries_def nth_butlast)
  ultimately show "\<exists>vc'. AddEntry vc v = Inr (entries vc ! (numEntries vc - 1), vc') \<and>
             numEntries vc' = numEntries vc \<and>
             entries vc' ! 0 = v \<and>
             (\<forall>i. i + 1 < numEntries vc \<longrightarrow> entries vc' ! (i + 1) = entries vc ! i)"
    by blast
qed

theorem C8_vertex_cache_slots_witness:
  "entries (VertexCache_new 3) = [- 1, - 1, - 1] \<and>
   AddEntry \<lparr>entries = [5, 7, 9]\<rparr> 4 = Inr (9, \<lparr>entries = [4, 5, 7]\<rparr>) \<and>
   InCache \<lparr>entries = [5, 7, 9]\<rparr> 7 \<and>
   \<not> InCache \<lparr>entries = [5, 7, 9]\<rparr> 4 \<and>
   entries (Clear \<lparr>entries = [5, 7, 9]\<rparr>) = [- 1, - 1, - 1]"
  using C8_vertex_cache_slots [of 3 "\<lparr>entries = [5, 7, 9]\<rparr>" 4]
  by (simp add: VertexCache_new_def numEntries_def AddEntry_def InCache_def Clear_def
      eval_nat_numeral)

section \<open>RemapIndices renumbers in first-touch order\<close>

lemma first_touch_from_prefix: "\<exists>rest. first_touch_from seen xs = seen @ rest"
  by (induction xs arbitrary: seen) (auto, metis append.assoc)

lemma first_touch_from_append:
  "first_touch_from seen (xs @ ys) = first_touch_from (first_touch_from seen xs) ys"
  by (induction xs arbitrary: seen) auto

lemma set_first_touch_from: "set (first_touch_from seen xs) = set seen \<union> set xs"
  by (induction xs arbitrary: seen) auto

lemma distinct_first_touch_from: "distinct seen \<Longrightarrow> distinct (first_touch_from seen xs)"
  by (induction xs arbitrary: seen) auto

lemma touch_rank_append: "x \<in> set ds \<Longrightarrow> touch_rank (ds @ rest) x = touch_rank ds x"
  by (induction ds) auto

lemma touch_rank_fresh: "x \<notin> set ds \<Longrightarrow> touch_rank (ds @ [x]) x = length ds"
  by (induction ds) auto

lemma touch_rank_less: "x \<in> set ds \<Longrightarrow> touch_rank ds x < length ds"
  by (induction ds) auto

lemma nth_touch_rank: "x \<in> set ds \<Longrightarrow> ds ! touch_rank ds x = x"
  by (induction ds) auto

lemma touch_rank_nth: "distinct ds \<Longrightarrow> k < length ds \<Longrightarrow> touch_rank ds (ds ! k) = k"
proof (induction ds arbitrary: k)
  case Nil
  then show ?case by simp
next
  case (Cons d ds)
  then show ?case by (cases k) auto
qed

lemma remap_rep_length: 
  assumes "remap_rep ds c n" shows "n \<le> length c"
proof -
  from assms have "distinct ds" "set ds \<subseteq> {..<length c}" "length ds = n"
    by (auto simp: remap_rep_def)
  then have "card (set ds) \<le> card {..<length c}" by (intro card_mono) auto
  with \<open>distinct ds\<close> \<open>length ds = n\<close> show ?thesis by (simp add: distinct_card)
qed

lemma remap_rep_step:
  assumes "remap_rep ds c n" "x < length c" "x \<notin> set ds"
  shows "remap_rep (ds @ [x]) (c[x := n]) (n + 1)"
  using assms unfolding remap_rep_def
  by (auto simp: nth_list_update touch_rank_append touch_rank_fresh)

lemma RemapIndices_group_rep:
  assumes "remap_rep ds c n" "\<forall>x\<in>set xs. x < length c"
  shows "\<exists>c' n'. RemapIndices_group xs c n =
            Inr (map (touch_rank (first_touch_from ds xs)) xs, c', n') \<and>
          remap_rep (first_touch_from ds xs) c' n' \<and> length c' = length c"
  using assms
proof (induction xs arbitrary: ds c n)
  case Nil
  then show ?case by simp
next
  case (Cons x xs)
  from Cons.prems have x: "x < length c" and xs: "\<forall>y\<in>set xs. y < length c" by auto
  from Cons.prems(1) have cx: "c ! x = (if x \<in> set ds then touch_rank ds x else SIZE_MAX)"
    and len: "length c < SIZE_MAX" and lds: "length ds = n"
    using x by (auto simp: remap_rep_def)
  show ?case
  proof (cases "x \<in> set ds")
    case True
    then have "touch_rank ds x < length ds" by (rule touch_rank_less)
    moreover have "n \<le> length c" using Cons.prems(1) by (rule remap_rep_length)
    ultimately have ne: "c ! x \<noteq> SIZE_MAX" using cx True len lds by simp
    from Cons.IH [OF Cons.prems(1) xs] obtain c' n' where
      r: "RemapIndices_group xs c n = Inr (map (touch_rank (first_touch_from ds xs)) xs, c', n')"
      and rep: "remap_rep (first_touch_from ds xs) c' n'" and l: "length c' = length c"
      by blast
    obtain rest where m: "first_touch_from ds xs = ds @ rest"
      using first_touch_from_prefix by blast
    have "touch_rank (first_touch_from ds xs) x = touch_rank ds x"
      using True m by (simp add: touch_rank_append)
    with True ne r rep l x cx show ?thesis
      by (simp add: Let_def)
  next
    case False
    then have eq: "c ! x = SIZE_MAX" using cx by simp
    have rep1: "remap_rep (ds @ [x]) (c[x := n]) (n + 1)"
      using Cons.prems(1) x False by (rule remap_rep_step)
    have xs': "\<forall>y\<in>set xs. y < length (c[x := n])" using xs by simp
    from Cons.IH [OF rep1 xs'] obtain c' n' where
      r: "RemapIndices_group xs (c[x := n]) (n + 1) =
            Inr (map (touch_rank (first_touch_from (ds @ [x]) xs)) xs, c', n')"
      and rep: "remap_rep (first_touch_from (ds @ [x]) xs) c' n'"
      and l: "length c' = length (c[x := n])"
      by blast
    obtain rest where m: "first_touch_from (ds @ [x]) xs = (ds @ [x]) @ rest"
      using first_touch_from_prefix by blast
    have "touch_rank (first_touch_from (ds @ [x]) xs) x = touch_rank (ds @ [x]) x"
      unfolding m by (rule touch_rank_append) simp
    also have "\<dots> = n" using False lds by (simp add: touch_rank_fresh)
    finally have tr: "touch_rank (first_touch_from (ds @ [x]) xs) x = n" .
    from False eq r rep l x tr show ?thesis
      by (simp add: Let_def)
  qed
qed

lemma RemapIndices_groups_rep:
  assumes "remap_rep ds c n" "\<forall>g\<in>set gs. \<forall>x\<in>set (indices g). x < length c"
  shows "RemapIndices_groups gs c n =
           Inr (map (\<lambda>g. \<lparr>ptype = ptype g,
                            indices = map (touch_rank (first_touch_from ds (all_indices gs))) (indices g)\<rparr>) gs)"
  using assms
proof (induction gs arbitrary: ds c n)
  case Nil
  then show ?case by simp
next
  case (Cons g gs)
  let ?ds1 = "first_touch_from ds (indices g)"
  let ?dsf = "first_touch_from ds (all_indices (g # gs))"
  from Cons.prems have g: "\<forall>x\<in>set (indices g). x < length c"
    and gs: "\<forall>h\<in>set gs. \<forall>x\<in>set (indices h). x < length c" by auto
  from RemapIndices_group_rep [OF Cons.prems(1) g] obtain c' n' where
    r: "RemapIndices_group (indices g) c n = Inr (map (touch_rank ?ds1) (indices g), c', n')"
    and rep: "remap_rep ?ds1 c' n'" and l: "length c' = length c"
    by blast
  have dsf: "?dsf = first_touch_from ?ds1 (all_indices gs)"
    by (simp add: all_indices_def first_touch_from_append)
  from gs l have gs': "\<forall>h\<in>set gs. \<forall>x\<in>set (indices h). x < length c'" by simp
  note IH = Cons.IH [OF rep gs']
  obtain rest where m: "first_touch_from ?ds1 (all_indices gs) = ?ds1 @ rest"
    using first_touch_from_prefix by blast
  have "map (touch_rank ?dsf) (indices g) = map (touch_rank ?ds1) (indices g)"
    unfolding dsf m by (rule map_cong) (auto simp: touch_rank_append set_first_touch_from)
  with r IH dsf show ?case by simp
qed

text \<open>
  Claim C2 (as amended).  When every index of every group is below \<open>numVerts\<close> (and
  \<open>numVerts\<close> is below the marker \<^verbatim>\<open>size_t\<close> maximum that stands for "not seen"),
  \<open>RemapIndices\<close> returns the groups with their types kept and every index replaced by
  its first-touch rank: with \<open>ds\<close> the distinct old indices in the order a scan of all
  streams meets them, the \<open>k\<close>-th of them (counted from 0) is mapped to \<open>k\<close>, every
  occurrence of an old index gets the same new index, and reading the new indices back
  through \<open>ds\<close> gives the original streams.
\<close>

theorem C2_remap_first_touch:
  assumes "\<forall>g\<in>set groups. \<forall>x\<in>set (indices g). x < numVerts" and "numVerts < SIZE_MAX"
  shows "let ds = first_touch (all_indices groups) in
           RemapIndices groups numVerts =
             Inr (map (\<lambda>g. \<lparr>ptype = ptype g, indices = map (touch_rank ds) (indices g)\<rparr>) groups) \<and>
           distinct ds \<and> set ds = set (all_indices groups) \<and>
           (\<forall>k<length ds. touch_rank ds (ds ! k) = k) \<and>
           (\<forall>g\<in>set groups. map (\<lambda>n. ds ! n) (map (touch_rank ds) (indices g)) = indices g)"
proof -
  let ?ds = "first_touch (all_indices groups)"
  have rep0: "remap_rep [] (replicate numVerts SIZE_MAX) 0"
    using assms(2) by (simp add: remap_rep_def)
  have bound: "\<forall>g\<in>set groups. \<forall>x\<in>set (indices g). x < length (replicate numVerts SIZE_MAX)"
    using assms(1) by simp
  have run: "RemapIndices groups numVerts =
      Inr (map (\<lambda>g. \<lparr>ptype = ptype g, indices = map (touch_rank ?ds) (indices g)\<rparr>) groups)"
    unfolding RemapIndices_def first_touch_def
    by (rule RemapIndices_groups_rep [OF rep0 bound])
  have d: "distinct ?ds"
    by (simp add: first_touch_def distinct_first_touch_from)
  have s: "set ?ds = set (all_indices groups)"
    by (simp add: first_touch_def set_first_touch_from)
  have k: "\<forall>k<length ?ds. touch_rank ?ds (?ds ! k) = k"
    using d by (simp add: touch_rank_nth)
  have inv: "\<forall>g\<in>set groups. map (\<lambda>n. ?ds ! n) (map (touch_rank ?ds) (indices g)) = indices g"
  proof
    fix g assume g: "g \<in> set groups"
    have "\<And>x. x \<in> set (indices g) \<Longrightarrow> ?ds ! touch_rank ?ds x = x"
    proof -
      fix x assume "x \<in> set (indices g)"
      with g have "x \<in> set (all_indices groups)" by (auto simp: all_indices_def)
      with s show "?ds ! touch_rank ?ds x = x" by (simp add: nth_touch_rank)
    qed
    then show "map (\<lambda>n. ?ds ! n) (map (touch_rank ?ds) (indices g)) = indices g"
      by (simp add: map_idI)
  qed
  from run d s k inv show ?thesis by (simp add: Let_def)
qed

theorem C2_remap_first_touch_witness:
  "RemapIndices [\<lparr>ptype = PT_STRIP, indices = [7, 3, 7, 5]\<rparr>, \<lparr>ptype = PT_LIST, indices = [5, 3, 9]\<rparr>] 10 =
     Inr [\<lparr>ptype = PT_STRIP, indices = [0, 1, 0, 2]\<rparr>, \<lparr>ptype = PT_LIST, indices = [2, 1, 3]\<rparr>] \<and>
   first_touch [7, 3, 7, 5, 5, 3, 9] = [7, 3, 5, 9]"
  using C2_remap_first_touch [of "[\<lparr>ptype = PT_STRIP, indices = [7, 3, 7, 5]\<rparr>, \<lparr>ptype = PT_LIST, indices = [5, 3, 9]\<rparr>]" 10]
  by (simp add: SIZE_MAX_def first_touch_def all_indices_def Let_def)

theorem C2_remap_out_of_range_counterexample:
  "RemapIndices [\<lparr>ptype = PT_LIST, indices = [5]\<rparr>] 3 = Inl OutOfBounds"
  by (simp add: RemapIndices_def)

section \<open>The sentinel in the stream of CreateStrips\<close>

lemma CreateStrips_rest_shape:
  assumes "\<forall>f\<in>set fs. nonneg_face f"
  shows "\<exists>ext t'. CreateStrips_rest fs idx t = (idx @ ext, t') \<and> length ext = length fs \<and>
           - 1 \<notin> set ext"
  using assms
proof (induction fs arbitrary: idx t)
  case Nil
  then show ?case by simp
next
  case (Cons f fs)
  then have f: "nonneg_face f" and fs: "\<forall>g\<in>set fs. nonneg_face g" by auto
  let ?u = "GetUniqueVertexInB t f"
  show ?case
  proof (cases "?u = - 1")
    case True
    from Cons.IH [OF fs, of "idx @ [m_v2 f]" "t\<lparr>m_v0 := m_v0 f, m_v1 := m_v1 f, m_v2 := m_v2 f\<rparr>"]
    obtain ext t' where
      "CreateStrips_rest fs (idx @ [m_v2 f]) (t\<lparr>m_v0 := m_v0 f, m_v1 := m_v1 f, m_v2 := m_v2 f\<rparr>) =
         ((idx @ [m_v2 f]) @ ext, t')" "length ext = length fs" "- 1 \<notin> set ext"
      by blast
    moreover have "m_v2 f \<noteq> - 1" using f by (simp add: nonneg_face_def)
    ultimately show ?thesis using True
      by (intro exI [of _ "m_v2 f # ext"] exI [of _ t']) (simp add: Let_def)
  next
    case False
    from Cons.IH [OF fs, of "idx @ [?u]" "t\<lparr>m_v0 := m_v1 t, m_v1 := m_v2 t, m_v2 := ?u\<rparr>"]
    obtain ext t' where
      "CreateStrips_rest fs (idx @ [?u]) (t\<lparr>m_v0 := m_v1 t, m_v1 := m_v2 t, m_v2 := ?u\<rparr>) =
         ((idx @ [?u]) @ ext, t')" "length ext = length fs" "- 1 \<notin> set ext"
      by blast
    then show ?thesis using False
      by (intro exI [of _ "?u # ext"] exI [of _ t']) (simp add: Let_def)
  qed
qed

lemma nonneg_face_swaps:
  assumes "nonneg_face t"
  shows "nonneg_face (t\<lparr>m_v0 := m_v1 t, m_v1 := m_v0 t\<rparr>)"
    and "nonneg_face (t\<lparr>m_v0 := m_v2 t, m_v2 := m_v0 t\<rparr>)"
    and "nonneg_face (t\<lparr>m_v1 := m_v2 t, m_v2 := m_v1 t\<rparr>)"
  using assms by (simp_all add: nonneg_face_def)

lemma firstFace_vertices:
  assumes "fs \<noteq> []" "nonneg_face (fs ! 0)"
  shows "nonneg_face (CreateStrips_firstFace fs)"
proof -
  let ?t0 = "NvFaceInfo_new (m_v0 (fs ! 0)) (m_v1 (fs ! 0)) (m_v2 (fs ! 0))"
  have t0: "nonneg_face ?t0"
    using assms(2) by (simp add: nonneg_face_def NvFaceInfo_new_def)
  define t1 where "t1 = (let nUnique = GetUniqueVertexInB (fs ! 1) ?t0 in
                     if nUnique = m_v1 ?t0 then ?t0\<lparr>m_v0 := m_v1 ?t0, m_v1 := m_v0 ?t0\<rparr>
                     else if nUnique = m_v2 ?t0 then ?t0\<lparr>m_v0 := m_v2 ?t0, m_v2 := m_v0 ?t0\<rparr>
                     else ?t0)"
  have t1: "nonneg_face t1"
    unfolding t1_def Let_def using nonneg_face_swaps [OF t0] t0 by presburger
  have sw: "nonneg_face (t1\<lparr>m_v1 := m_v2 t1, m_v2 := m_v1 t1\<rparr>)"
    using t1 by (rule nonneg_face_swaps)
  have "CreateStrips_firstFace fs =
      (if 1 < length fs then
         if 2 < length fs then
           if IsDegenerate (fs ! 1) then
             (if m_v1 t1 = m_v1 (fs ! 1) then t1\<lparr>m_v1 := m_v2 t1, m_v2 := m_v1 t1\<rparr> else t1)
           else (if fst (GetSharedVertices (fs ! 2) t1) = m_v1 t1 \<and> snd (GetSharedVertices (fs ! 2) t1) = - 1
                 then t1\<lparr>m_v1 := m_v2 t1, m_v2 := m_v1 t1\<rparr> else t1)
         else t1
       else ?t0)"
    unfolding CreateStrips_firstFace_def t1_def Let_def by (simp add: case_prod_beta)
  with t0 t1 sw show ?thesis by presburger
qed

lemma CreateStrips_strip_unstitched:
  assumes "fs \<noteq> []" "\<forall>f\<in>set fs. nonneg_face f"
  shows "\<exists>run t'. CreateStrips_strip dbg False n i fs (idx, acc, nsep, t) =
            Inr (idx @ run @ [- 1], acc + 1, nsep + 1, t') \<and>
          - 1 \<notin> set run \<and> length fs + 2 \<le> length run \<and> length run \<le> length fs + 3"
proof -
  let ?tf = "CreateStrips_firstFace fs"
  from assms have f0: "nonneg_face (fs ! 0)" by (cases fs) auto
  with assms(1) have tf: "nonneg_face ?tf" by (rule firstFace_vertices)
  let ?cw = "IsCW (fs ! 0) (m_v0 ?tf) (m_v1 ?tf)"
  let ?pre = "(if \<not> ?cw then [m_v0 ?tf] else []) @ [m_v0 ?tf, m_v1 ?tf, m_v2 ?tf]"
  from assms have tl: "\<forall>f\<in>set (tl fs). nonneg_face f" by (cases fs) auto
  from CreateStrips_rest_shape [OF tl, of "idx @ ?pre" ?tf] obtain ext t' where
    r: "CreateStrips_rest (tl fs) (idx @ ?pre) ?tf = ((idx @ ?pre) @ ext, t')"
    and l: "length ext = length (tl fs)" and m: "- 1 \<notin> set ext"
    by blast
  have pre: "- 1 \<notin> set ?pre" using tf by (auto simp: nonneg_face_def)
  have len: "length (tl fs) + 1 = length fs" using assms(1) by (cases fs) auto
  show ?thesis
    using r l m pre len assms(1)
    by (intro exI [of _ "?pre @ ext"] exI [of _ "t'\<lparr>m_v0 := m_v1 t', m_v1 := m_v2 t'\<rparr>"])
       (auto simp: CreateStrips_strip_def Let_def)
qed

lemma CreateStrips_loop_unstitched:
  assumes "\<forall>fs\<in>set strips. fs \<noteq> [] \<and> (\<forall>f\<in>set fs. nonneg_face f)"
  shows "\<exists>runs t'. CreateStrips_loop dbg False n i strips (idx, acc, nsep, t) =
            Inr (idx @ concat (map (\<lambda>r. r @ [- 1]) runs), acc + int (length strips),
                 nsep + length strips, t') \<and>
          length runs = length strips \<and>
          (\<forall>k<length strips. - 1 \<notin> set (runs ! k) \<and> length (strips ! k) + 2 \<le> length (runs ! k) \<and>
               length (runs ! k) \<le> length (strips ! k) + 3)"
  using assms
proof (induction strips arbitrary: i idx acc nsep t)
  case Nil
  then show ?case by simp
next
  case (Cons fs strips)
  then have fs: "fs \<noteq> []" "\<forall>f\<in>set fs. nonneg_face f"
    and rest: "\<forall>gs\<in>set strips. gs \<noteq> [] \<and> (\<forall>f\<in>set gs. nonneg_face f)" by auto
  from CreateStrips_strip_unstitched [OF fs, of dbg n i idx acc nsep t] obtain run t1 where
    s: "CreateStrips_strip dbg False n i fs (idx, acc, nsep, t) =
          Inr (idx @ run @ [- 1], acc + 1, nsep + 1, t1)"
    and run: "- 1 \<notin> set run" "length fs + 2 \<le> length run" "length run \<le> length fs + 3"
    by blast
  from Cons.IH [OF rest, of "Suc i" "idx @ run @ [- 1]" "acc + 1" "nsep + 1" t1]
  obtain runs t' where
    l: "CreateStrips_loop dbg False n (Suc i) strips (idx @ run @ [- 1], acc + 1, nsep + 1, t1) =
          Inr ((idx @ run @ [- 1]) @ concat (map (\<lambda>r. r @ [- 1]) runs),
               acc + 1 + int (length strips), nsep + 1 + length strips, t')"
    and len: "length runs = length strips"
    and each: "\<forall>k<length strips. - 1 \<notin> set (runs ! k) \<and> length (strips ! k) + 2 \<le> length (runs ! k) \<and>
               length (runs ! k) \<le> length (strips ! k) + 3"
    by blast
  have "\<forall>k<length (fs # strips). - 1 \<notin> set ((run # runs) ! k) \<and>
          length ((fs # strips) ! k) + 2 \<le> length ((run # runs) ! k) \<and>
          length ((run # runs) ! k) \<le> length ((fs # strips) ! k) + 3"
  proof (intro allI impI)
    fix k assume "k < length (fs # strips)"
    then show "- 1 \<notin> set ((run # runs) ! k) \<and>
          length ((fs # strips) ! k) + 2 \<le> length ((run # runs) ! k) \<and>
          length ((run # runs) ! k) \<le> length ((fs # strips) ! k) + 3"
      using run each by (cases k) auto
  qed
  with s l len show ?case
    by (intro exI [of _ "run # runs"] exI [of _ t']) simp
qed

text \<open>
  Claim C3 (as amended).  With stitching disabled, \<open>CreateStrips\<close> on a non-empty list
  of non-empty strips whose vertex indices are not negative writes, for every strip in order,
  the strip's run of indices followed by one \<open>-1\<close>.  A run holds no \<open>-1\<close> and has two
  or three indices more than the strip has faces.  So \<open>-1\<close> is never first and never
  inside a run, and it follows every run: the stream ends with \<open>-1\<close>.
\<close>

theorem C3_sentinel_after_every_strip:
  assumes "allStrips \<noteq> []"
    and "\<forall>fs\<in>set allStrips. fs \<noteq> [] \<and> (\<forall>f\<in>set fs. 0 \<le> m_v0 f \<and> 0 \<le> m_v1 f \<and> 0 \<le> m_v2 f)"
  shows "\<exists>runs. CreateStrips dbg allStrips False [] 0 =
                   Inr (concat (map (\<lambda>r. r @ [- 1]) runs), length allStrips) \<and>
                 length runs = length allStrips \<and>
                 (\<forall>k<length allStrips. - 1 \<notin> set (runs ! k) \<and>
                     length (allStrips ! k) + 2 \<le> length (runs ! k) \<and>
                     length (runs ! k) \<le> length (allStrips ! k) + 3)"
proof -
  from assms(2) have a: "\<forall>fs\<in>set allStrips. fs \<noteq> [] \<and> (\<forall>f\<in>set fs. nonneg_face f)"
    by (simp add: nonneg_face_def)
  from CreateStrips_loop_unstitched [OF a, of dbg "length allStrips" 0 "[]" 0 0 "NvFaceInfo_new 0 0 0"]
  obtain runs t' where
    "CreateStrips_loop dbg False (length allStrips) 0 allStrips ([], 0, 0, NvFaceInfo_new 0 0 0) =
       Inr ([] @ concat (map (\<lambda>r. r @ [- 1]) runs), 0 + int (length allStrips),
            0 + length allStrips, t')"
    "length runs = length allStrips"
    "\<forall>k<length allStrips. - 1 \<notin> set (runs ! k) \<and> length (allStrips ! k) + 2 \<le> length (runs ! k) \<and>
               length (runs ! k) \<le> length (allStrips ! k) + 3"
    by blast
  with assms(1) show ?thesis
    by (intro exI [of _ runs]) (simp add: CreateStrips_def assert_def)
qed

theorem C3_sentinel_after_every_strip_witness:
  "CreateStrips True [[NvFaceInfo_new 0 1 2, NvFaceInfo_new 2 1 3], [NvFaceInfo_new 4 5 6]] False [] 0 =
     Inr ([0, 1, 2, 3, - 1, 4, 5, 6, - 1], 2)"
  using C3_sentinel_after_every_strip
          [of "[[NvFaceInfo_new 0 1 2, NvFaceInfo_new 2 1 3], [NvFaceInfo_new 4 5 6]]" True]
  by (simp add: CreateStrips_def assert_def CreateStrips_strip_def CreateStrips_firstFace_def
      NvFaceInfo_new_def GetUniqueVertexInB_def IsCW_def Let_def)

theorem C3_trailing_sentinel_counterexample:
  "CreateStrips True [[NvFaceInfo_new 0 1 2]] False [] 0 = Inr ([0, 1, 2, - 1], 1) \<and>
   CreateStrips False [[NvFaceInfo_new 0 1 2]] False [] 0 = Inr ([0, 1, 2, - 1], 1)"
  by (simp add: CreateStrips_def assert_def CreateStrips_strip_def CreateStrips_firstFace_def
      NvFaceInfo_new_def IsCW_def Let_def)

section \<open>The cache never holds a vertex twice\<close>

lemma cache_distinct_new: "cache_distinct (VertexCache_new c)"
  by (simp add: cache_distinct_def VertexCache_new_def)

lemma distinct_filter_butlast: "distinct (filter P es) \<Longrightarrow> distinct (filter P (butlast es))"
proof (cases "es = []")
  case True
  then show ?thesis by simp
next
  case False
  assume d: "distinct (filter P es)"
  from False have "es = butlast es @ [last es]" by simp
  then have "filter P es = filter P (butlast es) @ filter P [last es]"
    by (metis filter_append)
  with d show ?thesis by (metis distinct_append)
qed

lemma AddIfAbsent_cases:
  assumes "AddIfAbsent vc v = Inr vc'"
  shows "if InCache vc v then vc' = vc else entries vc' = v # butlast (entries vc)"
proof (cases "InCache vc v")
  case True
  with assms show ?thesis by (simp add: AddIfAbsent_def)
next
  case False
  show ?thesis
  proof (cases "0 < numEntries vc")
    case True
    from AddEntry_entries [OF True, of v] assms False show ?thesis
      by (auto simp: AddIfAbsent_def)
  next
    case False
    with assms \<open>\<not> InCache vc v\<close> show ?thesis
      by (simp add: AddIfAbsent_def AddEntry_def)
  qed
qed

lemma AddIfAbsent_distinct:
  assumes "cache_distinct vc" "AddIfAbsent vc v = Inr vc'"
  shows "cache_distinct vc'"
proof (cases "InCache vc v")
  case True
  with AddIfAbsent_cases [OF assms(2)] assms(1) show ?thesis by simp
next
  case False
  with AddIfAbsent_cases [OF assms(2)] have e: "entries vc' = v # butlast (entries vc)" by simp
  from False have "v \<notin> set (entries vc)"
    by (simp add: InCache_def InCache_from_set)
  then have "v \<notin> set (butlast (entries vc))"
    by (meson in_set_butlastD)
  moreover have "distinct (filter (\<lambda>e. e \<noteq> - 1) (butlast (entries vc)))"
    using assms(1) unfolding cache_distinct_def by (rule distinct_filter_butlast)
  ultimately show ?thesis
    by (simp add: cache_distinct_def e)
qed

lemma UpdateCacheFace_distinct:
  assumes "cache_distinct vc" "UpdateCacheFace vc f = Inr vc'"
  shows "cache_distinct vc'"
proof -
  from assms(2) obtain vc1 vc2 where
    "AddIfAbsent vc (m_v0 f) = Inr vc1" "AddIfAbsent vc1 (m_v1 f) = Inr vc2"
    "AddIfAbsent vc2 (m_v2 f) = Inr vc'"
    by (auto simp: UpdateCacheFace_def bindE_eq_Inr)
  with assms(1) show ?thesis
    by (blast intro: AddIfAbsent_distinct)
qed

lemma UpdateCacheStrip_distinct:
  assumes "cache_distinct vc" "UpdateCacheStrip vc fs = Inr vc'"
  shows "cache_distinct vc'"
  using assms
proof (induction fs arbitrary: vc)
  case Nil
  then show ?case by simp
next
  case (Cons f fs)
  from Cons.prems(2) obtain vc1 where
    "UpdateCacheFace vc f = Inr vc1" "UpdateCacheStrip vc1 fs = Inr vc'"
    by (auto simp: bindE_eq_Inr)
  with Cons.prems(1) Cons.IH show ?case
    by (blast intro: UpdateCacheFace_distinct)
qed

lemma RemoveSmallStrips_loop_distinct:
  assumes "cache_distinct vc" "RemoveSmallStrips_loop k M temp vis vc bi fl = Inr (fl', vc')"
  shows "cache_distinct vc'"
  using assms
proof (induction k arbitrary: vis vc bi fl)
  case 0
  then show ?case by simp
next
  case (Suc k)
  obtain bnh bi' where b: "RemoveSmallStrips_best vc M (zip temp vis) 0 (- 1) bi = (bnh, bi')"
    by (cases "RemoveSmallStrips_best vc M (zip temp vis) 0 (- 1) bi")
  show ?case
  proof (cases "bnh = - 1")
    case True
    with Suc.prems b show ?thesis by simp
  next
    case False
    with Suc.prems(2) b obtain vc1 where
      u: "UpdateCacheFace vc (faces M ! (temp ! bi')) = Inr vc1"
      and r: "RemoveSmallStrips_loop k M temp (vis[bi' := True]) vc1 bi' (fl @ [temp ! bi']) = Inr (fl', vc')"
      by (auto simp: bindE_eq_Inr)
    from UpdateCacheFace_distinct [OF Suc.prems(1) u] have "cache_distinct vc1" .
    from Suc.IH [OF this r] show ?thesis .
  qed
qed

lemma Optimize_loop_distinct:
  assumes "cache_distinct vc" "Optimize_loop k M ts vc cw bi out = Inr (out', vc')"
  shows "cache_distinct vc'"
  using assms
proof (induction k arbitrary: ts vc cw bi out)
  case 0
  then show ?case by simp
next
  case (Suc k)
  from Suc.prems(2) obtain bnh bi' where
    b: "Optimize_best vc M cw ts 0 (- 1) bi = Inr (bnh, bi')"
    by (auto simp: bindE_eq_Inr)
  show ?case
  proof (cases "bnh = - 1")
    case True
    with Suc.prems b show ?thesis by simp
  next
    case False
    let ?chosen = "(ts ! bi')\<lparr>visited := True\<rparr>"
    from False Suc.prems(2) b obtain vc1 where
      u: "UpdateCacheStrip vc (strip_faces M ?chosen) = Inr vc1"
      and r: "Optimize_loop k M (ts[bi' := ?chosen]) vc1
                (if length (m_faces ?chosen) mod 2 = 0 then cw else \<not> cw) bi' (out @ [?chosen]) =
              Inr (out', vc')"
      by (auto simp: bindE_eq_Inr Let_def)
    from UpdateCacheStrip_distinct [OF Suc.prems(1) u] have "cache_distinct vc1" .
    from Suc.IH [OF this r] show ?thesis .
  qed
qed

lemma Optimize_distinct:
  assumes "Optimize dbg S M ts = Inr (out, vc')"
  shows "cache_distinct vc'"
proof -
  from assms obtain fi vc1 where
    u: "UpdateCacheStrip (VertexCache_new (nat (cacheSize S)))
          (strip_faces M ((ts ! fi)\<lparr>visited := True\<rparr>)) = Inr vc1"
    and r: "Optimize_loop (Suc (length ts)) M (ts[fi := (ts ! fi)\<lparr>visited := True\<rparr>]) vc1
              (length (m_faces ((ts ! fi)\<lparr>visited := True\<rparr>)) mod 2 = 0) 0
              [(ts ! fi)\<lparr>visited := True\<rparr>] = Inr (out, vc')"
    by (auto simp: Optimize_def bindE_eq_Inr Let_def simp del: Optimize_loop.simps)
  from UpdateCacheStrip_distinct [OF cache_distinct_new u] have "cache_distinct vc1" .
  from Optimize_loop_distinct [OF this r] show ?thesis .
qed

lemma triangle_mesh_built: "BuildStripifyInfo False [0, 1, 2] 2 = Inr triangle_mesh"
  by code_simp

lemma Optimize_triangle:
  "Optimize False small_stripifier triangle_mesh [piece [0]] =
     Inr ([(piece [0])\<lparr>visited := True\<rparr>], \<lparr>entries = [2, 1]\<rparr>)"
  by code_simp

lemma RemoveSmallStrips_loop_triangle:
  "RemoveSmallStrips_loop 2 triangle_mesh [0] [False] \<lparr>entries = [5, - 1]\<rparr> 0 [] =
     Inr ([0], \<lparr>entries = [2, 1]\<rparr>)"
  by code_simp

lemma Optimize_loop_triangle:
  "Optimize_loop 1 triangle_mesh [(piece [0])\<lparr>visited := True\<rparr>] \<lparr>entries = [5, - 1]\<rparr> False 0 [] =
     Inr ([], \<lparr>entries = [5, - 1]\<rparr>)"
  by code_simp

lemma UpdateCacheFace_example:
  "UpdateCacheFace \<lparr>entries = [5, - 1]\<rparr> (NvFaceInfo_new 5 6 7) = Inr \<lparr>entries = [7, 6]\<rparr>"
  by code_simp

lemma UpdateCacheStrip_example:
  "UpdateCacheStrip \<lparr>entries = [5, - 1]\<rparr> [NvFaceInfo_new 5 6 7, NvFaceInfo_new 7 6 8] =
     Inr \<lparr>entries = [8, 7]\<rparr>"
  by code_simp

lemma AddIfAbsent_example:
  "AddIfAbsent \<lparr>entries = [5, - 1]\<rparr> 6 = Inr \<lparr>entries = [6, 5]\<rparr>"
  by code_simp

text \<open>
  Claim C10.  A vertex enters the simulated cache only through \<open>AddIfAbsent\<close>, which
  looks it up first and leaves the cache as it is on a hit.  The cache is created with every
  slot empty, and \<open>UpdateCacheFace\<close>, \<open>UpdateCacheStrip\<close>, the loop that reorders
  the leftover faces (\<open>RemoveSmallStrips_loop\<close>) and the loop that reorders the strips
  (\<open>Optimize_loop\<close>, and \<open>Optimize\<close> from the fresh cache) keep the slots that are not
  \<open>-1\<close> pairwise distinct, from every state of the cache they can be in.
\<close>

theorem C10_cache_entries_distinct:
  "cache_distinct (VertexCache_new c) \<and>
   (AddIfAbsent vc v = Inr vc0 \<longrightarrow>
      (if InCache vc v then vc0 = vc else entries vc0 = v # butlast (entries vc))) \<and>
   (cache_distinct vc \<and> UpdateCacheFace vc f = Inr vc1 \<longrightarrow> cache_distinct vc1) \<and>
   (cache_distinct vc \<and> UpdateCacheStrip vc fs = Inr vc2 \<longrightarrow> cache_distinct vc2) \<and>
   (cache_distinct vc \<and>
      RemoveSmallStrips_loop k M tempFaceList bVisitedList vc bestIndex faceList = Inr (faceList', vc3)
      \<longrightarrow> cache_distinct vc3) \<and>
   (cache_distinct vc \<and>
      Optimize_loop k' M' tempStrips2 vc bWantsCW bestIndex' outStrips = Inr (outStrips', vc4)
      \<longrightarrow> cache_distinct vc4) \<and>
   (Optimize dbg S M'' tempStrips2' = Inr (outStrips'', vc5) \<longrightarrow> cache_distinct vc5)"
proof (intro conjI impI)
  show "cache_distinct (VertexCache_new c)"
    by (rule cache_distinct_new)
next
  assume "AddIfAbsent vc v = Inr vc0"
  then show "if InCache vc v then vc0 = vc else entries vc0 = v # butlast (entries vc)"
    by (rule AddIfAbsent_cases)
next
  assume "cache_distinct vc \<and> UpdateCacheFace vc f = Inr vc1"
  then show "cache_distinct vc1"
    by (blast intro: UpdateCacheFace_distinct)
next
  assume "cache_distinct vc \<and> UpdateCacheStrip vc fs = Inr vc2"
  then show "cache_distinct vc2"
    by (blast intro: UpdateCacheStrip_distinct)
next
  assume "cache_distinct vc \<and>
    RemoveSmallStrips_loop k M tempFaceList bVisitedList vc bestIndex faceList = Inr (faceList', vc3)"
  then show "cache_distinct vc3"
    by (blast intro: RemoveSmallStrips_loop_distinct)
next
  assume "cache_distinct vc \<and>
    Optimize_loop k' M' tempStrips2 vc bWantsCW bestIndex' outStrips = Inr (outStrips', vc4)"
  then show "cache_distinct vc4"
    by (blast intro: Optimize_loop_distinct)
next
  assume "Optimize dbg S M'' tempStrips2' = Inr (outStrips'', vc5)"
  then show "cache_distinct vc5"
    by (rule Optimize_distinct)
qed

theorem C10_cache_entries_distinct_witness:
  "cache_distinct \<lparr>entries = [5, - 1]\<rparr> \<and>
   AddIfAbsent \<lparr>entries = [5, - 1]\<rparr> 6 = Inr \<lparr>entries = [6, 5]\<rparr> \<and>
   UpdateCacheFace \<lparr>entries = [5, - 1]\<rparr> (NvFaceInfo_new 5 6 7) = Inr \<lparr>entries = [7, 6]\<rparr> \<and>
   cache_distinct \<lparr>entries = [7, 6]\<rparr> \<and>
   UpdateCacheStrip \<lparr>entries = [5, - 1]\<rparr> [NvFaceInfo_new 5 6 7, NvFaceInfo_new 7 6 8] =
     Inr \<lparr>entries = [8, 7]\<rparr> \<and>
   cache_distinct \<lparr>entries = [8, 7]\<rparr> \<and>
   RemoveSmallStrips_loop 2 triangle_mesh [0] [False] \<lparr>entries = [5, - 1]\<rparr> 0 [] =
     Inr ([0], \<lparr>entries = [2, 1]\<rparr>) \<and>
   Optimize_loop 1 triangle_mesh [(piece [0])\<lparr>visited := True\<rparr>] \<lparr>entries = [5, - 1]\<rparr> False 0 [] =
     Inr ([], \<lparr>entries = [5, - 1]\<rparr>) \<and>
   Optimize False small_stripifier triangle_mesh [piece [0]] =
     Inr ([(piece [0])\<lparr>visited := True\<rparr>], \<lparr>entries = [2, 1]\<rparr>) \<and>
   cache_distinct \<lparr>entries = [2, 1]\<rparr>"
  using C10_cache_entries_distinct
          [of 2 "\<lparr>entries = [5, - 1]\<rparr>" 6 "\<lparr>entries = [6, 5]\<rparr>"
              "NvFaceInfo_new 5 6 7" "\<lparr>entries = [7, 6]\<rparr>"
              "[NvFaceInfo_new 5 6 7, NvFaceInfo_new 7 6 8]" "\<lparr>entries = [8, 7]\<rparr>"
              2 triangle_mesh "[0]" "[False]" 0 "[]" "[0]" "\<lparr>entries = [2, 1]\<rparr>"
              1 triangle_mesh "[(piece [0])\<lparr>visited := True\<rparr>]" False 0 "[]" "[]"
              "\<lparr>entries = [5, - 1]\<rparr>"
              False small_stripifier triangle_mesh "[piece [0]]"
              "[(piece [0])\<lparr>visited := True\<rparr>]" "\<lparr>entries = [2, 1]\<rparr>"]
    AddIfAbsent_example UpdateCacheFace_example UpdateCacheStrip_example
    RemoveSmallStrips_loop_triangle Optimize_loop_triangle Optimize_triangle
  by (simp add: cache_distinct_def)

section \<open>The face that is already in the table\<close>











lemma length_set_face1 [simp]: "length (set_face1 f e es) = length es"
  by (simp add: set_face1_def)

lemma length_clear_face1 [simp]: "length (clear_face1 u e es) = length es"
  by (simp add: clear_face1_def)









lemma triangle_reversed:
  "BuildStripifyInfo_triangle False triangle_mesh (1, 0, 2) =
     Inr \<lparr>faces = [NvFaceInfo_new 0 1 2, NvFaceInfo_new 1 0 2],
          edges = [\<lparr>e_v0 = 0, e_v1 = 1, m_face0 = Some 0, m_face1 = Some 1, m_nextV0 = None, m_nextV1 = None\<rparr>,
                   \<lparr>e_v0 = 1, e_v1 = 2, m_face0 = Some 0, m_face1 = Some 1, m_nextV0 = Some 0, m_nextV1 = None\<rparr>,
                   \<lparr>e_v0 = 2, e_v1 = 0, m_face0 = Some 0, m_face1 = Some 1, m_nextV0 = Some 1, m_nextV1 = Some 0\<rparr>],
          faceInfos = [0, 1], edgeInfos = [Some 2, Some 1, Some 2]\<rparr>"
  by code_simp


section \<open>Groups for an empty result and for a result without strips\<close>





text \<open>
  Claim C4 at the triangle \<open>(0, 1, 2)\<close> with a minimum strip size of 2 and the other
  settings at their defaults.  The only strip has one face and goes to the list, so no strip
  is left; \<open>CreateStrips\<close> is called all the same, against its
  \<^verbatim>\<open>assert(nStripCount > 0)\<close>.  With \<^verbatim>\<open>assert\<close> compiled out the call returns a strip
  group without any index, so with no triangle, before the list group; with \<^verbatim>\<open>assert\<close>
  active it aborts.
\<close>

theorem C4_empty_strip_group:
  "GenerateStrips False (default_settings\<lparr>minStripSize := 2\<rparr>) [0, 1, 2] =
     Inr [\<lparr>ptype = PT_STRIP, indices = []\<rparr>, \<lparr>ptype = PT_LIST, indices = [0, 1, 2]\<rparr>] \<and>
   GenerateStrips True (default_settings\<lparr>minStripSize := 2\<rparr>) [0, 1, 2] = Inl AssertFailed"
  by code_simp

section \<open>Bounds of the single-precision values\<close>

lemma pow2_powi: "pow2 e = 2 powi e"
proof (cases "0 \<le> e")
  case True
  then show ?thesis by (simp add: pow2_def power_int_nonneg_exp)
next
  case False
  then have "(2::rat) powi e = 1 / 2 powi (- e)"
    by (metis minus_minus power_int_minus_divide)
  also have "\<dots> = 1 / 2 ^ nat (- e)"
    using False by (simp add: power_int_nonneg_exp)
  finally show ?thesis using False by (simp add: pow2_def)
qed

lemma pow2_pos [simp]: "0 < pow2 e"
  by (simp add: pow2_powi)

lemma pow2_add: "pow2 (a + b) = pow2 a * pow2 b"
  by (simp add: pow2_powi power_int_add)

lemma pow2_le_iff: "pow2 a \<le> pow2 b \<longleftrightarrow> a \<le> b"
proof
  assume "pow2 a \<le> pow2 b"
  show "a \<le> b"
  proof (rule ccontr)
    assume "\<not> a \<le> b"
    then have "b < a" by simp
    then have "(2::rat) powi b < 2 powi a" by (rule power_int_strict_increasing) simp
    with \<open>pow2 a \<le> pow2 b\<close> show False by (simp add: pow2_powi)
  qed
next
  assume "a \<le> b"
  then have "(2::rat) powi a \<le> 2 powi b" by (rule power_int_increasing) simp
  then show "pow2 a \<le> pow2 b" by (simp add: pow2_powi)
qed

lemma pow2_nat: "0 \<le> e \<Longrightarrow> pow2 e = 2 ^ nat e"
  by (simp add: pow2_def)

lemma ilog2_le:
  assumes "0 < a"
  shows "pow2 (ilog2 a) \<le> a"
proof -
  obtain p q where pq: "quotient_of a = (p, q)" by (cases "quotient_of a")
  then have q: "0 < q" by (rule quotient_of_denom_pos)
  from pq have a: "a = of_int p / of_int q" by (rule quotient_of_div)
  with assms q have p: "0 < p" by (simp add: zero_less_divide_iff)
  let ?d = "bitlen p - bitlen q"
  show ?thesis
  proof (cases "pow2 ?d \<le> a")
    case True
    with pq show ?thesis by (simp add: ilog2_def)
  next
    case False
    from bitlen_bounds [OF p] have lp: "2 ^ nat (bitlen p - 1) \<le> p" by simp
    from bitlen_bounds [OF q] have uq: "q < 2 ^ nat (bitlen q)" by simp
    have bp: "1 \<le> bitlen p" using p by (simp add: bitlen_alt_def)
    have bq: "0 \<le> bitlen q" by (rule bitlen_nonneg)
    have "pow2 (?d - 1) = pow2 (bitlen p - 1) * pow2 (- bitlen q)"
      using pow2_add [of "bitlen p - 1" "- bitlen q"] by (simp add: algebra_simps)
    also have "\<dots> = 2 ^ nat (bitlen p - 1) / 2 ^ nat (bitlen q)"
      using bp bq by (simp add: pow2_powi power_int_nonneg_exp power_int_minus_divide)
    also have "\<dots> \<le> of_int p / of_int q"
    proof -
      have p2: "(2::rat) ^ nat (bitlen p - 1) \<le> of_int p"
        using lp by (metis of_int_le_iff of_int_numeral of_int_power)
      have q2: "(of_int q :: rat) \<le> 2 ^ nat (bitlen q)"
        using uq by (metis less_imp_le of_int_le_iff of_int_numeral of_int_power)
      have p0: "(0::rat) \<le> of_int p" using p by simp
      have q0: "(0::rat) < of_int q" using q by simp
      show ?thesis by (rule frac_le [OF p0 p2 q0 q2])
    qed
    finally have "pow2 (?d - 1) \<le> a" by (simp add: a)
    with False pq show ?thesis by (simp add: ilog2_def)
  qed
qed

lemma round_even_le: "q \<le> of_int N \<Longrightarrow> round_even q \<le> N"
proof -
  assume a: "q \<le> of_int N"
  then have f: "\<lfloor>q\<rfloor> \<le> N" by (simp add: floor_le_iff) 
  show ?thesis
  proof (cases "\<lfloor>q\<rfloor> = N")
    case True
    with a have "q = of_int N" by (metis floor_le_iff le_less_linear not_less of_int_floor_le order_antisym)
    then show ?thesis by (simp add: round_even_def)
  next
    case False
    with f have "\<lfloor>q\<rfloor> + 1 \<le> N" by simp
    then show ?thesis by (auto simp: round_even_def Let_def)
  qed
qed

lemma round_even_of_int [simp]: "round_even (of_int N) = N"
  by (simp add: round_even_def)

lemma round_even_numeral [simp]: "round_even (numeral n) = numeral n"
  using round_even_of_int [of "numeral n"] by simp

lemma round_even_nonneg: "0 \<le> q \<Longrightarrow> 0 \<le> round_even q"
  by (auto simp: round_even_def Let_def)

lemma f32_nonneg: "0 \<le> x \<Longrightarrow> 0 \<le> f32 x"
proof (cases "x = 0")
  case True
  then show ?thesis by (simp add: f32_def)
next
  case False
  assume "0 \<le> x"
  let ?u = "pow2 (max (ilog2 \<bar>x\<bar>) (- 126) - 23)"
  have "0 \<le> x / ?u" using \<open>0 \<le> x\<close> by (simp add: less_imp_le)
  then have "0 \<le> round_even (x / ?u)" by (rule round_even_nonneg)
  then have "0 \<le> of_int (round_even (x / ?u)) * ?u"
    by (intro mult_nonneg_nonneg) (simp_all add: less_imp_le)
  with False show ?thesis by (simp add: f32_def Let_def)
qed

lemma f32_le_int:
  assumes "0 \<le> x" "x \<le> of_int K" "K \<le> 2 ^ 24"
  shows "f32 x \<le> of_int K"
proof (cases "x = 0")
  case True
  with assms show ?thesis by (simp add: f32_def)
next
  case False
  with assms have x: "0 < x" by simp
  define e where "e = max (ilog2 x) (- 126)"
  define u where "u = pow2 (e - 23)"
  have u: "0 < u" by (simp add: u_def)
  have f: "f32 x = of_int (round_even (x / u)) * u"
    using False x by (simp add: f32_def e_def u_def Let_def)
  have "pow2 (ilog2 x) \<le> of_int K" using ilog2_le [OF x] assms(2) by simp
  also have "\<dots> \<le> of_int (2 ^ 24)" using assms(3) by (simp only: of_int_le_iff)
  also have "\<dots> = pow2 24" by (simp add: pow2_def)
  finally have "ilog2 x \<le> 24" by (simp add: pow2_le_iff)
  then have e24: "e \<le> 24" by (simp add: e_def)
  show ?thesis
  proof (cases "e \<le> 23")
    case True
    then have "pow2 (23 - e) = 2 ^ nat (23 - e)" by (simp add: pow2_nat)
    moreover have "pow2 (23 - e) * u = 1"
      unfolding u_def using pow2_add [of "23 - e" "e - 23"] by (simp add: pow2_def)
    ultimately have inv: "1 / u = of_int (2 ^ nat (23 - e))"
      using u by (simp add: field_simps)
    have "x / u \<le> of_int K / u" using assms(2) u by (simp add: divide_right_mono)
    also have "\<dots> = of_int K * (1 / u)" by simp
    also have "\<dots> = of_int (K * 2 ^ nat (23 - e))"
      unfolding inv by simp
    finally have "round_even (x / u) \<le> K * 2 ^ nat (23 - e)" by (rule round_even_le)
    then have "of_int (round_even (x / u)) * u \<le> of_int (K * 2 ^ nat (23 - e)) * u"
      using u by (simp add: mult_right_mono del: of_int_mult of_int_power)
    also have "\<dots> = of_int K * (of_int (2 ^ nat (23 - e)) * u)" by simp
    also have "\<dots> = of_int K" using inv u by (simp add: field_simps)
    finally show ?thesis by (simp add: f)
  next
    case False
    with e24 have e: "e = 24" by simp
    then have il: "ilog2 x = 24" by (simp add: e_def max_def split: if_splits)
    have "(2::rat) ^ 24 = pow2 (ilog2 x)" by (simp add: il pow2_def)
    also have "\<dots> \<le> x" by (rule ilog2_le [OF x])
    finally have "2 ^ 24 \<le> x" .
    moreover have "x \<le> 2 ^ 24"
    proof -
      have "(of_int K :: rat) \<le> of_int (2 ^ 24)" using assms(3) by (simp only: of_int_le_iff)
      with assms(2) show ?thesis by simp
    qed
    ultimately have x24: "x = 2 ^ 24" by simp
    have "(of_int (2 ^ 24) :: rat) \<le> of_int K" using assms(2) x24 by simp
    then have "2 ^ 24 \<le> K" by (simp only: of_int_le_iff)
    with assms(3) have K24: "K = 2 ^ 24" by simp
    have "u = 2" by (simp add: u_def e pow2_def)
    then have "f32 x = of_int (round_even (of_int (2 ^ 23))) * 2"
      unfolding f by (simp add: x24)
    then show ?thesis by (simp add: K24)
  qed
qed

lemma f32_of_int:
  assumes "0 \<le> K" "K \<le> 2 ^ 24"
  shows "f32 (of_int K) = of_int K"
proof (cases "K = 0")
  case True
  then show ?thesis by (simp add: f32_def)
next
  case False
  define x :: rat where "x = of_int K"
  from False assms(1) have x: "0 < x" by (simp add: x_def)
  define e where "e = max (ilog2 x) (- 126)"
  define u where "u = pow2 (e - 23)"
  have u: "0 < u" by (simp add: u_def)
  have f: "f32 x = of_int (round_even (x / u)) * u"
    using x by (simp add: f32_def e_def u_def Let_def)
  have "pow2 (ilog2 x) \<le> of_int K" using ilog2_le [OF x] by (simp add: x_def)
  also have "\<dots> \<le> of_int (2 ^ 24)" using assms(2) by (simp only: of_int_le_iff)
  also have "\<dots> = pow2 24" by (simp add: pow2_def)
  finally have "ilog2 x \<le> 24" by (simp add: pow2_le_iff)
  then have e24: "e \<le> 24" by (simp add: e_def)
  have "f32 x = x"
  proof (cases "e \<le> 23")
    case True
    then have "pow2 (23 - e) = 2 ^ nat (23 - e)" by (simp add: pow2_nat)
    moreover have "pow2 (23 - e) * u = 1"
      unfolding u_def using pow2_add [of "23 - e" "e - 23"] by (simp add: pow2_def)
    ultimately have inv: "1 / u = of_int (2 ^ nat (23 - e))"
      using u by (simp add: field_simps)
    have "x / u = of_int K * (1 / u)" by (simp add: x_def)
    also have "\<dots> = of_int (K * 2 ^ nat (23 - e))" unfolding inv by simp
    finally have "round_even (x / u) = K * 2 ^ nat (23 - e)" by (simp only: round_even_of_int)
    then have "f32 x = of_int K * (of_int (2 ^ nat (23 - e)) * u)" unfolding f by simp
    also have "\<dots> = of_int K" using inv u by (simp add: field_simps)
    finally show ?thesis by (simp add: x_def)
  next
    case False
    with e24 have e: "e = 24" by simp
    then have il: "ilog2 x = 24" by (simp add: e_def max_def split: if_splits)
    have "(2::rat) ^ 24 = pow2 (ilog2 x)" by (simp add: il pow2_def)
    also have "\<dots> \<le> x" by (rule ilog2_le [OF x])
    finally have "2 ^ 24 \<le> x" .
    moreover have "x \<le> 2 ^ 24"
    proof -
      have "(of_int K :: rat) \<le> of_int (2 ^ 24)" using assms(2) by (simp only: of_int_le_iff)
      then show ?thesis by (simp add: x_def)
    qed
    ultimately have x24: "x = 2 ^ 24" by simp
    have "u = 2" by (simp add: u_def e pow2_def)
    then have "f32 x = of_int (round_even (of_int (2 ^ 23))) * 2"
      unfolding f by (simp add: x24)
    then show ?thesis by (simp add: x24)
  qed
  then show ?thesis by (simp add: x_def)
qed

lemma f32_of_nat: "n \<le> 2 ^ 24 \<Longrightarrow> f32 (of_nat n) = of_nat n"
  using f32_of_int [of "int n"] by simp


lemma f32_zero [simp]: "f32 0 = 0"
  by (simp add: f32_def)

lemma f32_tenth: "f32 (1 / 10) = 13421773 / 134217728"
  by code_simp

lemma f32_twentieth: "f32 (1 / 20) = 13421773 / 268435456"
  by code_simp

lemma nextJump_range: "0 \<le> mj \<Longrightarrow> 0 \<le> nextJump mj \<and> nextJump mj \<le> 1"
  by (auto simp: nextJump_def Let_def f32_twentieth f32_tenth intro!: f32_nonneg)

lemma to_ptrdiff_floor:
  assumes "0 \<le> x" "x \<le> of_int K" "K < 2 ^ 63"
  shows "to_ptrdiff x = Inr \<lfloor>x\<rfloor>" and "0 \<le> \<lfloor>x\<rfloor>" and "\<lfloor>x\<rfloor> \<le> K"
proof -
  define t where "t = \<lfloor>x\<rfloor>"
  have le: "t \<le> K" using assms(2) by (simp add: t_def floor_le_iff)
  have ge: "0 \<le> t" using assms(1) by (simp add: t_def)
  from le assms(3) have "t < 2 ^ 63" by simp
  moreover from ge have "- (2 ^ 63) \<le> t" by simp
  ultimately have "to_ptrdiff x = Inr t"
    unfolding to_ptrdiff_def Let_def t_def [symmetric] using assms(1) by simp
  then show "to_ptrdiff x = Inr \<lfloor>x\<rfloor>" by (simp add: t_def)
  from ge show "0 \<le> \<lfloor>x\<rfloor>" by (simp add: t_def)
  from le show "\<lfloor>x\<rfloor> \<le> K" by (simp only: t_def)
qed




section \<open>Reset points and the end of the search\<close>

lemma mod_twice: "a < 2 * n \<Longrightarrow> a mod n = (if a < n then a else a - n)" for a n :: nat
  by (simp add: mod_if)

lemma scan_step:
  assumes "i < length (faceInfos M)"
  shows "FindGoodResetPoint_scan (Suc k) M sp (int i) =
           (if unclaimed M (faceInfos M ! i) then Inr (Some (faceInfos M ! i))
            else if int (Suc i mod length (faceInfos M)) \<noteq> sp
                 then FindGoodResetPoint_scan k M sp (int (Suc i mod length (faceInfos M)))
                 else Inr None)"
proof -
  have "int (Suc i mod length (faceInfos M)) =
          (if int (length (faceInfos M)) \<le> int i + 1 then 0 else int i + 1)"
    using assms by (auto simp: mod_Suc)
  then show ?thesis using assms by (simp add: unclaimed_def Let_def)
qed

lemma scan_out_of_range:
  "sp < 0 \<or> int (length (faceInfos M)) \<le> sp \<Longrightarrow>
   FindGoodResetPoint_scan (Suc k) M sp sp = Inl OutOfBounds"
  by simp

declare FindGoodResetPoint_scan.simps(2) [simp del]

lemma scan_rotate:
  assumes "sp < length (faceInfos M)" "t < length (faceInfos M)" "length (faceInfos M) - t \<le> k"
  shows "FindGoodResetPoint_scan k M (int sp) (int ((sp + t) mod length (faceInfos M))) =
           Inr (find (unclaimed M) (drop t (rotate sp (faceInfos M))))"
  using assms
proof (induction k arbitrary: t)
  case 0
  then show ?case by simp
next
  case (Suc k)
  let ?n = "length (faceInfos M)"
  let ?i = "(sp + t) mod ?n"
  have "0 < ?n" using Suc.prems(1) by auto
  then have i: "?i < ?n" by simp
  have nth: "rotate sp (faceInfos M) ! t = faceInfos M ! ?i"
    using Suc.prems(2) by (simp add: nth_rotate)
  have dr: "drop t (rotate sp (faceInfos M)) =
              (faceInfos M ! ?i) # drop (Suc t) (rotate sp (faceInfos M))"
    using Suc.prems(2) nth by (simp add: Cons_nth_drop_Suc [symmetric])
  have nx: "Suc ?i mod ?n = (sp + Suc t) mod ?n" by (simp add: mod_Suc_eq)
  note step = scan_step [OF i, of k "int sp", unfolded nx]
  show ?case
  proof (cases "unclaimed M (faceInfos M ! ?i)")
    case True
    then show ?thesis by (simp only: step dr find.simps if_True)
  next
    case False
    show ?thesis
    proof (cases "Suc t = ?n")
      case True
      then have "(sp + Suc t) mod ?n = sp" using Suc.prems(1) by simp
      moreover have "drop (Suc t) (rotate sp (faceInfos M)) = []" using True by simp
      ultimately show ?thesis using False by (simp only: step dr find.simps) simp
    next
      case ne: False
      with Suc.prems(2) have lt: "Suc t < ?n" by simp
      have neq: "(sp + Suc t) mod ?n \<noteq> sp"
        using lt Suc.prems(1) by (simp add: mod_twice) arith
      have "length (faceInfos M) - Suc t \<le> k" using Suc.prems(3) by simp
      from Suc.IH [OF Suc.prems(1) lt this] neq False show ?thesis
        by (simp only: step dr find.simps) simp
    qed
  qed
qed

lemma scan_from_start:
  assumes "sp < length (faceInfos M)"
  shows "FindGoodResetPoint_scan (Suc (length (faceInfos M))) M (int sp) (int sp) =
           Inr (find (unclaimed M) (rotate sp (faceInfos M)))"
proof -
  have "0 < length (faceInfos M)" using assms by auto
  from scan_rotate [OF assms this, of "Suc (length (faceInfos M))"] assms show ?thesis
    by simp
qed

lemma find_unclaimed_None: "find (unclaimed M) (rotate sp (faceInfos M)) = None \<longleftrightarrow> all_claimed M"
  by (auto simp: find_None_iff all_claimed_def unclaimed_def not_less)





lemma clear_first_time:
  "\<not> bFirstTimeResetPoint S \<Longrightarrow> S\<lparr>bFirstTimeResetPoint := False\<rparr> = S"
  by (cases S) simp

lemma FindGoodResetPoint_start:
  assumes "FindGoodResetPoint dbg S M = Inr (r, S')"
  shows "\<exists>startPoint.
           (if bFirstTimeResetPoint S
            then \<exists>sp0. FindStartPoint dbg M = Inr sp0 \<and>
                   (if sp0 = - 1 then jumpPoint (length (faceInfos M)) (meshJump S) = Inr startPoint
                    else startPoint = sp0)
            else jumpPoint (length (faceInfos M)) (meshJump S) = Inr startPoint) \<and>
           FindGoodResetPoint_scan (Suc (length (faceInfos M))) M startPoint startPoint = Inr r \<and>
           S' = S\<lparr>bFirstTimeResetPoint := False, meshJump := nextJump (meshJump S)\<rparr>"
proof (cases "bFirstTimeResetPoint S")
  case True
  with assms show ?thesis
    unfolding FindGoodResetPoint_def Let_def
    by (auto simp: bindE_eq_Inr split: if_splits)
next
  case False
  with assms show ?thesis
    unfolding FindGoodResetPoint_def Let_def
    by (auto simp: bindE_eq_Inr clear_first_time
             split: if_splits)
qed

lemma scan_returns:
  assumes "FindGoodResetPoint_scan (Suc (length (faceInfos M))) M startPoint startPoint = Inr r"
  shows "0 \<le> startPoint \<and> nat startPoint < length (faceInfos M) \<and>
         r = find (unclaimed M) (rotate (nat startPoint) (faceInfos M))"
proof -
  have range: "0 \<le> startPoint \<and> startPoint < int (length (faceInfos M))"
  proof (rule ccontr)
    assume "\<not> ?thesis"
    then have "startPoint < 0 \<or> int (length (faceInfos M)) \<le> startPoint" by auto
    from scan_out_of_range [OF this] assms show False by simp
  qed
  then have lt: "nat startPoint < length (faceInfos M)" by (auto simp: nat_less_iff)
  from scan_from_start [OF lt] range assms lt show ?thesis by simp
qed

lemma FindGoodResetPoint_result:
  assumes "FindGoodResetPoint dbg S M = Inr (r, S')"
  shows "\<exists>sp<length (faceInfos M).
           r = find (unclaimed M) (rotate sp (faceInfos M)) \<and>
           (\<not> bFirstTimeResetPoint S \<longrightarrow>
              jumpPoint (length (faceInfos M)) (meshJump S) = Inr (int sp))"
    and "S' = S\<lparr>bFirstTimeResetPoint := False, meshJump := nextJump (meshJump S)\<rparr>"
proof -
  from FindGoodResetPoint_start [OF assms] obtain startPoint where
    a: "\<not> bFirstTimeResetPoint S \<Longrightarrow> jumpPoint (length (faceInfos M)) (meshJump S) = Inr startPoint"
    and b: "FindGoodResetPoint_scan (Suc (length (faceInfos M))) M startPoint startPoint = Inr r"
    and c: "S' = S\<lparr>bFirstTimeResetPoint := False, meshJump := nextJump (meshJump S)\<rparr>"
    by (auto split: if_splits)
  from scan_returns [OF b] a show "\<exists>sp<length (faceInfos M).
           r = find (unclaimed M) (rotate sp (faceInfos M)) \<and>
           (\<not> bFirstTimeResetPoint S \<longrightarrow>
              jumpPoint (length (faceInfos M)) (meshJump S) = Inr (int sp))"
    by (intro exI [of _ "nat startPoint"]) simp
  from c show "S' = S\<lparr>bFirstTimeResetPoint := False, meshJump := nextJump (meshJump S)\<rparr>" .
qed



lemma FindGoodResetPoint_None:
  assumes "FindGoodResetPoint dbg S M = Inr (r, S')"
  shows "r = None \<longleftrightarrow> all_claimed M"
  using FindGoodResetPoint_result(1) [OF assms] by (auto simp: find_unclaimed_None)


lemma FindAllStrips_setup_done:
  "FindAllStrips_setup dbg n st experiments experimentIndex resetPoints = Inr (d, experiments', numExperiments, st')
   \<Longrightarrow> st_mesh st' = st_mesh st \<and> (d \<longrightarrow> all_claimed (st_mesh st)) \<and>
       (all_claimed (st_mesh st) \<and> 0 < n \<longrightarrow> d)"
proof (induction n arbitrary: st experiments experimentIndex resetPoints)
  case 0
  then show ?case by simp
next
  case (Suc n)
  from Suc.prems obtain found S' where
    g: "FindGoodResetPoint dbg (st_stripifier st) (st_mesh st) = Inr (found, S')"
    and rest: "(case found of
         None \<Rightarrow> Inr (True, experiments, experimentIndex, st\<lparr>st_stripifier := S'\<rparr>)
       | Some nextFace \<Rightarrow>
           if nextFace \<in> resetPoints
           then FindAllStrips_setup dbg n (st\<lparr>st_stripifier := S'\<rparr>) experiments experimentIndex resetPoints
           else
             bindE (assert dbg (m_stripId (faces (st_mesh (st\<lparr>st_stripifier := S'\<rparr>)) ! nextFace) < 0)) (\<lambda>_.
             bindE (six_starts dbg (st_mesh (st\<lparr>st_stripifier := S'\<rparr>)) nextFace) (\<lambda>starts.
               case add_experiments starts experiments experimentIndex
                      (st_experimentId (st\<lparr>st_stripifier := S'\<rparr>)) (st_stripId (st\<lparr>st_stripifier := S'\<rparr>)) of
                 (experiments', experimentIndex', eId', sId') \<Rightarrow>
                   FindAllStrips_setup dbg n (st\<lparr>st_stripifier := S', st_experimentId := eId', st_stripId := sId'\<rparr>)
                     experiments' experimentIndex' (insert nextFace resetPoints)))) =
        Inr (d, experiments', numExperiments, st')"
    by (auto simp: bindE_eq_Inr Let_def)
  note none = FindGoodResetPoint_None [OF g]
  show ?case
  proof (cases found)
    case None
    with rest none show ?thesis by auto
  next
    case (Some nextFace)
    with none have nc: "\<not> all_claimed (st_mesh st)" by simp
    show ?thesis
    proof (cases "nextFace \<in> resetPoints")
      case True
      with rest Some have "FindAllStrips_setup dbg n (st\<lparr>st_stripifier := S'\<rparr>) experiments
          experimentIndex resetPoints = Inr (d, experiments', numExperiments, st')" by simp
      from Suc.IH [OF this] nc show ?thesis by simp
    next
      case False
      with rest Some obtain starts where
        r2: "(case add_experiments starts experiments experimentIndex
                     (st_experimentId st) (st_stripId st) of
                (exps2, ei2, eId2, sId2) \<Rightarrow>
                  FindAllStrips_setup dbg n
                    (st\<lparr>st_stripifier := S', st_experimentId := eId2, st_stripId := sId2\<rparr>)
                    exps2 ei2 (insert nextFace resetPoints)) =
             Inr (d, experiments', numExperiments, st')"
        by (auto simp: bindE_eq_Inr)
      obtain exps2 ei2 eId2 sId2 where
        "add_experiments starts experiments experimentIndex (st_experimentId st) (st_stripId st) =
           (exps2, ei2, eId2, sId2)"
        by (metis prod_cases4)
      with r2 have
        "FindAllStrips_setup dbg n (st\<lparr>st_stripifier := S', st_experimentId := eId2, st_stripId := sId2\<rparr>)
           exps2 ei2 (insert nextFace resetPoints) = Inr (d, experiments', numExperiments, st')"
        by simp
      from Suc.IH [OF this] nc show ?thesis by simp
    qed
  qed
qed

lemma FindAllStrips_round_done:
  assumes "FindAllStrips_round dbg numSamples st = Inr (d, st')" "0 < numSamples"
  shows "d \<longleftrightarrow> all_claimed (st_mesh st)"
proof -
  from assms(1) obtain experiments numExperiments st1 where
    "FindAllStrips_setup dbg numSamples st (replicate (numSamples * 6) []) 0 {} =
       Inr (d, experiments, numExperiments, st1)"
    unfolding FindAllStrips_round_def
    by (auto simp: bindE_eq_Inr Let_def split: if_splits prod.splits)
  from FindAllStrips_setup_done [OF this] assms(2) show ?thesis by auto
qed



lemma FindAllStrips_loop_continue:
  assumes "FindAllStrips_round dbg numSamples st = Inr (d, st')"
    and "\<not> all_claimed (st_mesh st)" "0 < numSamples"
  shows "FindAllStrips_loop dbg numSamples (Suc k) st = FindAllStrips_loop dbg numSamples k st'"
  using FindAllStrips_round_done [OF assms(1,3)] assms(1,2) by simp


lemma jumpPoint_floor:
  assumes "0 < n" "n \<le> 2 ^ 24" "0 \<le> mj" "mj \<le> 1"
  shows "jumpPoint n mj = Inr \<lfloor>f32 (of_nat (n - 1) * mj)\<rfloor>"
proof -
  define K where "K = int n - 1"
  have K: "0 \<le> K" "K \<le> 2 ^ 24" using assms(1,2) by (simp_all add: K_def)
  then have m: "(int n - 1) mod 2 ^ 64 = K" by (simp add: K_def)
  have ex: "f32 (of_int K) = of_int K" using K by (rule f32_of_int)
  have c: "0 \<le> of_int K * mj" using K(1) assms(3) by simp
  have "of_int K * mj \<le> of_int K * 1" using K(1) assms(4) by (intro mult_left_mono) simp_all
  then have d: "of_int K * mj \<le> of_int K" by simp
  have e: "0 \<le> f32 (of_int K * mj)" using c by (rule f32_nonneg)
  have f: "f32 (of_int K * mj) \<le> of_int K" using c d K(2) by (rule f32_le_int)
  have "K < 2 ^ 63" using K(2) by simp
  from to_ptrdiff_floor(1) [OF e f this]
  have "to_ptrdiff (f32 (of_int K * mj)) = Inr \<lfloor>f32 (of_int K * mj)\<rfloor>" .
  moreover have "(of_nat (n - 1) :: rat) = of_int K" using assms(1) by (simp add: K_def of_nat_diff)
  ultimately show ?thesis unfolding jumpPoint_def m ex by simp
qed

lemma triangle_reset_point:
  "FindGoodResetPoint False small_stripifier triangle_mesh =
     Inr (Some 0, small_stripifier\<lparr>meshJump := 13421773 / 134217728\<rparr>)"
  by code_simp


lemma jumpPoint_seven: "jumpPoint 11 (f32 (7 / 10)) = Inr 7 \<and> f32 (7 / 10) = 11744051 / 16777216"
  by code_simp

lemma triangle_first_round:
  "FindAllStrips_round False 10 triangle_start =
     Inr (False,
          \<lparr>st_allStrips =
             [\<lparr>m_startInfo = \<lparr>m_startFace = Some 0, m_startEdge = Some 0, m_toV1 = True\<rparr>,
               m_faces = [0], s_stripId = 0, s_experimentId = - 1, visited = False,
               m_numDegenerates = 0, m_Degenerates = []\<rparr>],
           st_mesh = triangle_claimed,
           st_stripifier =
             \<lparr>s_indices = [0, 1, 2], cacheSize = 10, minStripLength = 0,
              meshJump = 13421773 / 268435456, bFirstTimeResetPoint = False\<rparr>,
           st_experimentId = 6, st_stripId = 6\<rparr>)"
  by code_simp




lemma jumpPoint_triangle: "jumpPoint 1 0 = Inr 0 \<and> nextJump 0 = 13421773 / 134217728"
  by code_simp

lemma rounded_seven:
  "\<lfloor>f32 (10 * (11744051 / 16777216))\<rfloor> = 7 \<and> \<lfloor>10 * (11744051 / 16777216 :: rat)\<rfloor> = 6 \<and>
   nextJump (11744051 / 16777216) = 13421773 / 16777216"
  by code_simp




text \<open>
  Claim C5, as amended.  \<open>Stripify\<close> starts with \<^verbatim>\<open>meshJump\<close> 0 and the flag for the
  first call set.  Every call of \<open>FindGoodResetPoint\<close> that returns advances
  \<^verbatim>\<open>meshJump\<close> once, by \<open>nextJump\<close>: the single-precision sum with \<open>0.1f\<close>, replaced by
  \<open>0.05f\<close> when it is above 1.  A call after the first starts at the index \<open>jumpPoint\<close> and
  returns the first unclaimed face of the table from there on, wrapping around at the end.
  For a table of at most \<open>2 ^ 24\<close> faces and \<^verbatim>\<open>meshJump\<close> between 0 and 1 the jump point
  is the integer part of the single-precision product of \<open>numFaces - 1\<close> and
  \<^verbatim>\<open>meshJump\<close>, and the next \<^verbatim>\<open>meshJump\<close> is between 0 and 1 again.
\<close>

theorem C5_mesh_jump_every_call:
  "meshJump (Stripify_members in_indices in_cacheSize in_minStripLength) = 0 \<and>
   bFirstTimeResetPoint (Stripify_members in_indices in_cacheSize in_minStripLength) \<and>
   (\<forall>r S'. FindGoodResetPoint dbg S M = Inr (r, S') \<longrightarrow>
      meshJump S' = nextJump (meshJump S) \<and> \<not> bFirstTimeResetPoint S' \<and>
      (\<not> bFirstTimeResetPoint S \<longrightarrow>
         (\<exists>sp<length (faceInfos M).
            jumpPoint (length (faceInfos M)) (meshJump S) = Inr (int sp) \<and>
            r = find (unclaimed M) (rotate sp (faceInfos M))))) \<and>
   nextJump mj = (if 1 < f32 (mj + f32 (1 / 10)) then f32 (1 / 20) else f32 (mj + f32 (1 / 10))) \<and>
   (0 < n \<and> n \<le> 2 ^ 24 \<and> 0 \<le> mj \<and> mj \<le> 1 \<longrightarrow>
      jumpPoint n mj = Inr \<lfloor>f32 (of_nat (n - 1) * mj)\<rfloor> \<and>
      0 \<le> nextJump mj \<and> nextJump mj \<le> 1)"
proof (intro conjI allI impI)
  show "meshJump (Stripify_members in_indices in_cacheSize in_minStripLength) = 0"
    by (simp add: Stripify_members_def)
  show "bFirstTimeResetPoint (Stripify_members in_indices in_cacheSize in_minStripLength)"
    by (simp add: Stripify_members_def)
  show "nextJump mj = (if 1 < f32 (mj + f32 (1 / 10)) then f32 (1 / 20) else f32 (mj + f32 (1 / 10)))"
    by (simp add: nextJump_def Let_def)
next
  fix r S' assume a: "FindGoodResetPoint dbg S M = Inr (r, S')"
  note S' = FindGoodResetPoint_result(2) [OF a]
  from S' show "meshJump S' = nextJump (meshJump S)" by simp
  from S' show "\<not> bFirstTimeResetPoint S'" by simp
  assume "\<not> bFirstTimeResetPoint S"
  with FindGoodResetPoint_result(1) [OF a]
  show "\<exists>sp<length (faceInfos M).
          jumpPoint (length (faceInfos M)) (meshJump S) = Inr (int sp) \<and>
          r = find (unclaimed M) (rotate sp (faceInfos M))"
    by blast
next
  assume b: "0 < n \<and> n \<le> 2 ^ 24 \<and> 0 \<le> mj \<and> mj \<le> 1"
  then show "jumpPoint n mj = Inr \<lfloor>f32 (of_nat (n - 1) * mj)\<rfloor>"
    by (intro jumpPoint_floor) simp_all
  from b nextJump_range [of mj] show "0 \<le> nextJump mj" by simp
  from b nextJump_range [of mj] show "nextJump mj \<le> 1" by simp
qed

theorem C5_mesh_jump_every_call_witness:
  "FindGoodResetPoint False small_stripifier triangle_mesh =
     Inr (Some 0, small_stripifier\<lparr>meshJump := 13421773 / 134217728\<rparr>) \<and>
   \<not> bFirstTimeResetPoint small_stripifier \<and> meshJump small_stripifier = 0 \<and>
   nextJump 0 = 13421773 / 134217728 \<and>
   jumpPoint (length (faceInfos triangle_mesh)) 0 = Inr 0 \<and>
   find (unclaimed triangle_mesh) (rotate 0 (faceInfos triangle_mesh)) = Some 0 \<and>
   jumpPoint 11 (11744051 / 16777216) = Inr 7 \<and>
   nextJump (11744051 / 16777216) = 13421773 / 16777216"
  using C5_mesh_jump_every_call [of "[0, 1, 2]" 16 0 False small_stripifier triangle_mesh
          "11744051 / 16777216" 11]
    triangle_reset_point jumpPoint_triangle rounded_seven
  by (simp add: small_stripifier_def triangle_mesh_def unclaimed_def NvFaceInfo_new_def)

text \<open>
  Claim C5 as stated fails: \<^verbatim>\<open>meshJump\<close> moves with every call of
  \<open>FindGoodResetPoint\<close>, and a round calls it for each of its samples.  The first round on
  the single triangle makes ten calls: it starts with \<^verbatim>\<open>meshJump\<close> 0 and ends with
  \<open>0.05f\<close>, the value after the wrap, not with 0.1.
\<close>

theorem C5_ten_jumps_in_first_round_counterexample:
  "meshJump (st_stripifier triangle_start) = 0 \<and>
   FindAllStrips_round False 10 triangle_start =
     Inr (False,
          \<lparr>st_allStrips =
             [\<lparr>m_startInfo = \<lparr>m_startFace = Some 0, m_startEdge = Some 0, m_toV1 = True\<rparr>,
               m_faces = [0], s_stripId = 0, s_experimentId = - 1, visited = False,
               m_numDegenerates = 0, m_Degenerates = []\<rparr>],
           st_mesh = triangle_claimed,
           st_stripifier =
             \<lparr>s_indices = [0, 1, 2], cacheSize = 10, minStripLength = 0,
              meshJump = 13421773 / 268435456, bFirstTimeResetPoint = False\<rparr>,
           st_experimentId = 6, st_stripId = 6\<rparr>) \<and>
   (13421773 / 268435456 :: rat) \<noteq> 1 / 10 \<and>
   f32 (1 / 10) = 13421773 / 134217728 \<and> f32 (1 / 20) = 13421773 / 268435456"
  using triangle_first_round f32_tenth f32_twentieth
  by (simp add: triangle_start_def Stripify_members_def)

end
